theory Spec2Isabelle
  imports Complex_Main "HOL-Library.AList"
begin

section \<open>Numbers, vectors and JavaScript maps\<close>

text \<open>
  The plugin is TypeScript on top of three.js.  JavaScript numbers are modelled as
  \<^typ>\<open>real\<close>: every comparison and every arithmetic expression of the source is kept,
  rounding is not.  The division of the repulsion term is modelled with
  \<open>js_divide\<close>, whose result \<open>None\<close> stands for a quotient that is \<open>NaN\<close> or
  infinite; the other divisions of the modelled code (\<open>normalize\<close>, friction) have
  divisors that their own guards keep away from zero.

  A JavaScript \<open>Map\<close> keeps its keys in insertion order; it is an association list
  with distinct keys: \<open>m.get(k)\<close> is \<^term>\<open>map_of m k\<close>, \<open>m.set(k, v)\<close> is
  \<^term>\<open>AList.update k v m\<close> (replace in place, or append) and \<open>m.delete(k)\<close> is
  \<^term>\<open>AList.delete k m\<close>.
\<close>

datatype vec3 = Vec3 (vx: real) (vy: real) (vz: real)

definition zero3 :: vec3 where
  "zero3 = Vec3 0 0 0"

fun add3 :: "vec3 \<Rightarrow> vec3 \<Rightarrow> vec3" where
  "add3 (Vec3 a b c) (Vec3 d e f) = Vec3 (a + d) (b + e) (c + f)"

fun sub3 :: "vec3 \<Rightarrow> vec3 \<Rightarrow> vec3" where
  "sub3 (Vec3 a b c) (Vec3 d e f) = Vec3 (a - d) (b - e) (c - f)"

fun multiplyScalar :: "vec3 \<Rightarrow> real \<Rightarrow> vec3" where
  "multiplyScalar (Vec3 a b c) s = Vec3 (a * s) (b * s) (c * s)"

fun lengthSq :: "vec3 \<Rightarrow> real" where
  "lengthSq (Vec3 a b c) = a * a + b * b + c * c"

definition length3 :: "vec3 \<Rightarrow> real" where
  "length3 v = sqrt (lengthSq v)"

definition distanceTo :: "vec3 \<Rightarrow> vec3 \<Rightarrow> real" where
  "distanceTo a b = sqrt (lengthSq (sub3 a b))"

text \<open>three.js: \<open>normalize()\<close> is \<open>divideScalar(length() || 1)\<close> and
  \<open>divideScalar(s)\<close> is \<open>multiplyScalar(1 / s)\<close>.\<close>

definition normalize :: "vec3 \<Rightarrow> vec3" where
  "normalize v = multiplyScalar v (1 / (if length3 v = 0 then 1 else length3 v))"

fun lerpVectors :: "vec3 \<Rightarrow> vec3 \<Rightarrow> real \<Rightarrow> vec3" where
  "lerpVectors (Vec3 a b c) (Vec3 d e f) t =
     Vec3 (a + (d - a) * t) (b + (e - b) * t) (c + (f - c) * t)"

definition js_divide :: "real \<Rightarrow> real \<Rightarrow> real option" where
  "js_divide a b = (if b = 0 then None else Some (a / b))"

text \<open>\<open>x || d\<close> on an optional string: \<open>undefined\<close> and the empty string are falsy.\<close>

definition or_else :: "string option \<Rightarrow> string \<Rightarrow> string" where
  "or_else x d = (case x of None \<Rightarrow> d | Some s \<Rightarrow> if s = [] then d else s)"

definition truthy :: "string option \<Rightarrow> bool" where
  "truthy x = (case x of None \<Rightarrow> False | Some s \<Rightarrow> s \<noteq> [])"

section \<open>The Graph Store: \<open>GravityGraph\<close>\<close>

text \<open>
  Objects have identity in JavaScript: a link holds the two mesh objects, not their
  ids, and \<open>nodeToUniqueId\<close> is keyed by mesh object.  Meshes and lines are therefore
  references (natural numbers) into an explicit store \<open>heap\<close>; \<open>next_ref\<close> is the
  next unused reference, \<open>scene\<close> the children of the three.js scene, \<open>disposed\<close> the
  renderer resources released so far.  The points of a line geometry and the
  material parameters of a line are render state that no modelled method reads;
  they are left out, as are \<open>updateNodeColors\<close> and \<open>initializePositions\<close>.
\<close>

type_synonym ref = nat

record color =
  red :: real
  green :: real
  blue :: real

record PhysicsMesh =
  position :: vec3
  velocity :: vec3
  force :: vec3
  mass :: real
  scale :: vec3
  materialColor :: color
  emissive :: color
  emissiveIntensity :: real
  userData_noteTitle :: string
  userData_uniqueId :: string
  userData_filePath :: "string option"

record Link =
  link_from :: ref
  link_to :: ref
  line :: ref

record PulseData =
  phase :: real
  speed :: real
  baseColor :: color
  pulseColor :: color
  emissiveStrenghtMultiplier :: real

record Forces =
  repulsion :: real
  friction :: real
  centerAttraction :: real
  linkStrength :: real

text \<open>Of \<open>PluginSettings\<close> the store reads the folder colour policy only:
  \<open>colorForFile p\<close> is \<open>hexToThreeColor(getNodeColorForFile(p, settings))\<close> as a
  three.js colour, \<open>defaultNodeColor\<close> the colour of \<open>settings.defaultNodeColor\<close>.\<close>

record PluginSettings =
  defaultNodeColor :: color
  colorForFile :: "string \<Rightarrow> color"

text \<open>A label is a DOM element; its text is kept, its style (screen position, scale
  and opacity) is presentation and is not modelled.\<close>

record Label =
  textContent :: string

datatype resource = Geometry | Material

record GravityGraph =
  heap :: "ref \<Rightarrow> PhysicsMesh option"
  next_ref :: ref
  scene :: "ref list"
  disposed :: "(ref \<times> resource) list"
  nodes :: "(string \<times> ref) list"
  labels :: "(string \<times> Label) list"
  links :: "Link list"
  forces :: Forces
  maxSpeed :: real
  freeze :: bool
  frozenNodes :: "string list"
  velocityTreshold :: real
  maxVisibleDistance :: real
  labelScale :: real
  baseNodeScale :: real
  linkScaleMultiplier :: real
  nodeFilePaths :: "(string \<times> string) list"
  currentSettings :: "PluginSettings option"
  nodeToUniqueId :: "(ref \<times> string) list"
  colorPulseData :: "(string \<times> PulseData) list"

definition GravityGraph_constructor :: GravityGraph where
  "GravityGraph_constructor =
     \<lparr>heap = (\<lambda>_. None), next_ref = 0, scene = [], disposed = [], nodes = [], labels = [],
      links = [],
      forces = \<lparr>repulsion = 0.8, friction = 0.05, centerAttraction = 0.001,
                linkStrength = 0.03\<rparr>,
      maxSpeed = 2.0, freeze = False, frozenNodes = [], velocityTreshold = 0.001,
      maxVisibleDistance = 8, labelScale = 0.05, baseNodeScale = 1,
      linkScaleMultiplier = 0.1, nodeFilePaths = [], currentSettings = None,
      nodeToUniqueId = [], colorPulseData = []\<rparr>"

definition white :: color where
  "white = \<lparr>red = 1, green = 1, blue = 1\<rparr>"

definition colorMultiplyScalar :: "color \<Rightarrow> real \<Rightarrow> color" where
  "colorMultiplyScalar c s = \<lparr>red = red c * s, green = green c * s, blue = blue c * s\<rparr>"

definition calculateBrightnessMultiplier :: "color \<Rightarrow> real" where
  "calculateBrightnessMultiplier c =
     (let brightness = red c * 0.299 + green c * 0.587 + blue c * 0.114
      in 0 + ((max 0 (0.85 - brightness)) / 0.85)\<^sup>2 * 10)"

definition getNodeColor :: "GravityGraph \<Rightarrow> string \<Rightarrow> color" where
  "getNodeColor G uniqueId =
     (case currentSettings G of
        None \<Rightarrow> white
      | Some settings \<Rightarrow>
          (case map_of (nodeFilePaths G) uniqueId of
             None \<Rightarrow> defaultNodeColor settings
           | Some path \<Rightarrow>
               if path = [] then defaultNodeColor settings
               else colorForFile settings path))"

definition removeLabelForNode :: "GravityGraph \<Rightarrow> string \<Rightarrow> GravityGraph" where
  "removeLabelForNode G uniqueId =
     (case map_of (labels G) uniqueId of
        None \<Rightarrow> G
      | Some label \<Rightarrow> G\<lparr>labels := AList.delete uniqueId (labels G)\<rparr>)"

text \<open>\<open>addNode(uniqueId, filePath?, displayName?)\<close>.  The two calls of
  \<open>Math.random()\<close> are the arguments \<open>rnd1\<close> and \<open>rnd2\<close>.  A fresh
  \<open>PhysicsMesh\<close> is allocated on every call; there is no test whether the id is
  already a key of \<open>nodes\<close>.\<close>

definition addNode ::
  "GravityGraph \<Rightarrow> string \<Rightarrow> string option \<Rightarrow> string option \<Rightarrow> real \<Rightarrow> real \<Rightarrow> GravityGraph"
where
  "addNode G uniqueId filePath' displayName rnd1 rnd2 =
     (let nodeTitle = or_else displayName uniqueId;
          G1 = (if truthy filePath'
                then G\<lparr>nodeFilePaths := AList.update uniqueId (the filePath') (nodeFilePaths G)\<rparr>
                else G);
          nodeColor = getNodeColor G1 uniqueId;
          mesh = next_ref G1;
          newMesh = \<lparr>position = zero3, velocity = zero3, force = zero3, mass = 1,
                 scale = Vec3 1 1 1, materialColor = nodeColor, emissive = nodeColor,
                 emissiveIntensity = 0.5, userData_noteTitle = nodeTitle,
                 userData_uniqueId = uniqueId, userData_filePath = filePath'\<rparr>;
          multiplier = calculateBrightnessMultiplier nodeColor
      in G1\<lparr>heap := (heap G1)(mesh \<mapsto> newMesh),
            next_ref := Suc mesh,
            nodes := AList.update uniqueId mesh (nodes G1),
            nodeToUniqueId := AList.update mesh uniqueId (nodeToUniqueId G1),
            scene := scene G1 @ [mesh],
            colorPulseData := AList.update uniqueId
               \<lparr>phase = rnd1 * pi * 2, speed = 0.5 + rnd2 * 1.5, baseColor = nodeColor,
                pulseColor = colorMultiplyScalar nodeColor multiplier,
                emissiveStrenghtMultiplier = multiplier\<rparr> (colorPulseData G1)\<rparr>)"

text \<open>The test of \<open>addLink\<close> and \<open>removeLink\<close> for a link between two mesh
  objects, in either direction.\<close>

definition connects :: "ref \<Rightarrow> ref \<Rightarrow> Link \<Rightarrow> bool" where
  "connects fromMesh toMesh link \<longleftrightarrow>
     (link_from link = fromMesh \<and> link_to link = toMesh) \<or>
     (link_from link = toMesh \<and> link_to link = fromMesh)"

definition addLink :: "GravityGraph \<Rightarrow> string \<Rightarrow> string \<Rightarrow> GravityGraph" where
  "addLink G fromUniqueId toUniqueId =
     (case (map_of (nodes G) fromUniqueId, map_of (nodes G) toUniqueId) of
        (Some fromMesh, Some toMesh) \<Rightarrow>
          if list_ex (connects fromMesh toMesh) (links G) then G
          else (let lineRef = next_ref G
                in G\<lparr>next_ref := Suc lineRef,
                     links := links G @ [\<lparr>link_from = fromMesh, link_to = toMesh, line = lineRef\<rparr>],
                     scene := scene G @ [lineRef]\<rparr>)
      | _ \<Rightarrow> G)"

definition touches :: "ref \<Rightarrow> Link \<Rightarrow> bool" where
  "touches node link \<longleftrightarrow> link_from link = node \<or> link_to link = node"

text \<open>\<open>obj.geometry.dispose()\<close> followed by \<open>obj.material.dispose()\<close>.\<close>

definition disposeBoth :: "ref \<Rightarrow> (ref \<times> resource) list" where
  "disposeBoth obj = [(obj, Geometry), (obj, Material)]"

text \<open>\<open>removeNode\<close>: the links touching the mesh are filtered out (their lines leave
  the scene and are disposed), then the mesh leaves the scene, its material is
  disposed (the geometry is shared) and its entries leave the keyed maps.\<close>

definition removeNode :: "GravityGraph \<Rightarrow> string \<Rightarrow> GravityGraph" where
  "removeNode G uniqueId =
     (case map_of (nodes G) uniqueId of
        None \<Rightarrow> G
      | Some node \<Rightarrow>
          (let removed = map line (filter (touches node) (links G));
               G1 = G\<lparr>links := filter (\<lambda>link. \<not> touches node link) (links G),
                      scene := filter (\<lambda>obj. obj \<noteq> node \<and> obj \<notin> set removed) (scene G),
                      disposed := disposed G @ concat (map disposeBoth removed)
                                   @ [(node, Material)],
                      nodes := AList.delete uniqueId (nodes G),
                      nodeToUniqueId := AList.delete node (nodeToUniqueId G),
                      colorPulseData := AList.delete uniqueId (colorPulseData G),
                      nodeFilePaths := AList.delete uniqueId (nodeFilePaths G)\<rparr>
           in removeLabelForNode G1 uniqueId))"

text \<open>\<open>findIndex\<close> and \<open>splice(index, 1)\<close>: the first link that satisfies the test
  is taken out of the list.\<close>

fun remove_first :: "('a \<Rightarrow> bool) \<Rightarrow> 'a list \<Rightarrow> 'a list" where
  "remove_first P [] = []"
| "remove_first P (x # xs) = (if P x then xs else x # remove_first P xs)"

definition removeLink :: "GravityGraph \<Rightarrow> string \<Rightarrow> string \<Rightarrow> GravityGraph" where
  "removeLink G fromUniqueId toUniqueId =
     (case (map_of (nodes G) fromUniqueId, map_of (nodes G) toUniqueId) of
        (Some fromNode, Some toNode) \<Rightarrow>
          (case find (connects fromNode toNode) (links G) of
             None \<Rightarrow> G
           | Some link \<Rightarrow>
               G\<lparr>scene := filter (\<lambda>obj. obj \<noteq> line link) (scene G),
                 disposed := disposed G @ disposeBoth (line link),
                 links := remove_first (connects fromNode toNode) (links G)\<rparr>)
      | _ \<Rightarrow> G)"

text \<open>\<open>renameNode(oldUniqueId, newUniqueId, newFilePath?)\<close>.  The mesh object stays
  the same; \<open>nodeToUniqueId\<close> is not written.\<close>

definition renameNode ::
  "GravityGraph \<Rightarrow> string \<Rightarrow> string \<Rightarrow> string option \<Rightarrow> GravityGraph"
where
  "renameNode G oldUniqueId newUniqueId newFilePath =
     (case map_of (nodes G) oldUniqueId of
        None \<Rightarrow> G
      | Some node \<Rightarrow>
          (let upd = (\<lambda>m. m\<lparr>userData_uniqueId := newUniqueId,
                             userData_filePath :=
                               (if truthy newFilePath then newFilePath
                                else userData_filePath m)\<rparr>);
               G1 = G\<lparr>heap := (heap G)(node := map_option upd (heap G node)),
                      nodes := AList.update newUniqueId node
                                 (AList.delete oldUniqueId (nodes G))\<rparr>;
               G2 = (case map_of (colorPulseData G1) oldUniqueId of
                       None \<Rightarrow> G1
                     | Some pulseData \<Rightarrow>
                         G1\<lparr>colorPulseData := AList.update newUniqueId pulseData
                               (AList.delete oldUniqueId (colorPulseData G1))\<rparr>);
               G3 = G2\<lparr>nodeFilePaths := AList.delete oldUniqueId (nodeFilePaths G2)\<rparr>;
               G4 = (if truthy newFilePath
                     then G3\<lparr>nodeFilePaths :=
                              AList.update newUniqueId (the newFilePath) (nodeFilePaths G3)\<rparr>
                     else G3)
           in removeLabelForNode G4 oldUniqueId))"

section \<open>The Physics Engine: \<open>calculateForces\<close> and \<open>updateAllNodes\<close>\<close>

text \<open>Reading and writing a field of a mesh object through its reference.  A
  reference held by \<open>nodes\<close> or by a link always points to an object in JavaScript;
  the default of \<open>position_of\<close> is never reached on such a store.\<close>

definition position_of :: "(ref \<Rightarrow> PhysicsMesh option) \<Rightarrow> ref \<Rightarrow> vec3" where
  "position_of h node = (case h node of None \<Rightarrow> zero3 | Some m \<Rightarrow> position m)"

definition modify :: "ref \<Rightarrow> (PhysicsMesh \<Rightarrow> PhysicsMesh) \<Rightarrow> (ref \<Rightarrow> PhysicsMesh option)
    \<Rightarrow> (ref \<Rightarrow> PhysicsMesh option)" where
  "modify node f h = h(node := map_option f (h node))"

definition force_add :: "vec3 \<Rightarrow> PhysicsMesh \<Rightarrow> PhysicsMesh" where
  "force_add d m = m\<lparr>force := add3 (force m) d\<rparr>"

definition force_sub :: "vec3 \<Rightarrow> PhysicsMesh \<Rightarrow> PhysicsMesh" where
  "force_sub d m = m\<lparr>force := sub3 (force m) d\<rparr>"

text \<open>The body of the two nested repulsion loops for one pair \<open>(nodeA, nodeB)\<close>.
  \<open>None\<close>: the quotient \<open>repulsion / (distance * distance)\<close> is not a finite number.\<close>

definition repulsionPair ::
  "real \<Rightarrow> ref \<Rightarrow> ref \<Rightarrow> (ref \<Rightarrow> PhysicsMesh option) \<Rightarrow> (ref \<Rightarrow> PhysicsMesh option) option"
where
  "repulsionPair rep nodeA nodeB h =
     (let distance = distanceTo (position_of h nodeA) (position_of h nodeB)
      in if distance < 0.1 then Some h
         else (case js_divide rep (distance * distance) of
                 None \<Rightarrow> None
               | Some repulsionForce \<Rightarrow>
                   (let direction = multiplyScalar
                          (normalize (sub3 (position_of h nodeA) (position_of h nodeB)))
                          repulsionForce
                    in Some (modify nodeB (force_sub direction)
                              (modify nodeA (force_add direction) h)))))"

text \<open>The inner loop (\<open>j\<close> from \<open>i + 1\<close>) and the outer loop (\<open>i\<close>) over
  \<open>Array.from(this.nodes.values())\<close>.\<close>

fun repulsionRow ::
  "real \<Rightarrow> ref \<Rightarrow> ref list \<Rightarrow> (ref \<Rightarrow> PhysicsMesh option) \<Rightarrow> (ref \<Rightarrow> PhysicsMesh option) option"
where
  "repulsionRow rep nodeA [] h = Some h"
| "repulsionRow rep nodeA (nodeB # rest) h =
     (case repulsionPair rep nodeA nodeB h of
        None \<Rightarrow> None
      | Some h' \<Rightarrow> repulsionRow rep nodeA rest h')"

fun repulsionAll ::
  "real \<Rightarrow> ref list \<Rightarrow> (ref \<Rightarrow> PhysicsMesh option) \<Rightarrow> (ref \<Rightarrow> PhysicsMesh option) option"
where
  "repulsionAll rep [] h = Some h"
| "repulsionAll rep (nodeA # rest) h =
     (case repulsionRow rep nodeA rest h of
        None \<Rightarrow> None
      | Some h' \<Rightarrow> repulsionAll rep rest h')"

definition springLink ::
  "real \<Rightarrow> Link \<Rightarrow> (ref \<Rightarrow> PhysicsMesh option) \<Rightarrow> (ref \<Rightarrow> PhysicsMesh option)" where
  "springLink strength link h =
     (let pf = position_of h (link_from link);
          pt = position_of h (link_to link);
          distance = distanceTo pf pt;
          idealDistance = 2.5;
          springForce = (distance - idealDistance) * strength;
          direction = multiplyScalar (normalize (sub3 pt pf)) springForce
      in modify (link_to link) (force_sub direction)
           (modify (link_from link) (force_add direction) h))"

definition centerPull :: "real \<Rightarrow> ref \<Rightarrow> (ref \<Rightarrow> PhysicsMesh option) \<Rightarrow> (ref \<Rightarrow> PhysicsMesh option)"
where
  "centerPull c node h =
     modify node (\<lambda>m. m\<lparr>force := add3 (force m) (multiplyScalar (position m) (- c))\<rparr>) h"

definition resetForce :: "ref \<Rightarrow> (ref \<Rightarrow> PhysicsMesh option) \<Rightarrow> (ref \<Rightarrow> PhysicsMesh option)" where
  "resetForce node h = modify node (\<lambda>m. m\<lparr>force := Vec3 0 0 0\<rparr>) h"

definition calculateForces :: "GravityGraph \<Rightarrow> GravityGraph option" where
  "calculateForces G =
     (let nodeArray = map snd (nodes G);
          h0 = fold resetForce nodeArray (heap G)
      in case repulsionAll (repulsion (forces G)) nodeArray h0 of
           None \<Rightarrow> None
         | Some h1 \<Rightarrow>
             (let h2 = fold (springLink (linkStrength (forces G))) (links G) h1;
                  h3 = fold (centerPull (centerAttraction (forces G))) nodeArray h2
              in Some (G\<lparr>heap := h3\<rparr>)))"

text \<open>\<open>nodeConnectionCounts\<close>: one pass over the links through the reverse lookup
  \<open>nodeToUniqueId\<close>.  \<open>fromUniqueId && toUniqueId\<close> is false for a missing entry and
  for the empty string.\<close>

definition count_get :: "(string \<times> nat) list \<Rightarrow> string \<Rightarrow> nat" where
  "count_get counts k = (case map_of counts k of None \<Rightarrow> 0 | Some c \<Rightarrow> c)"

definition countLink :: "(ref \<times> string) list \<Rightarrow> Link \<Rightarrow> (string \<times> nat) list \<Rightarrow> (string \<times> nat) list"
where
  "countLink n2i link counts =
     (case (map_of n2i (link_from link), map_of n2i (link_to link)) of
        (Some fromUniqueId, Some toUniqueId) \<Rightarrow>
          if fromUniqueId \<noteq> [] \<and> toUniqueId \<noteq> [] then
            (let counts1 = AList.update fromUniqueId (count_get counts fromUniqueId + 1) counts
             in AList.update toUniqueId (count_get counts1 toUniqueId + 1) counts1)
          else counts
      | _ \<Rightarrow> counts)"

definition nodeConnectionCounts :: "GravityGraph \<Rightarrow> (string \<times> nat) list" where
  "nodeConnectionCounts G = fold (countLink (nodeToUniqueId G)) (links G) []"

text \<open>\<open>getNodeConnectionCount\<close>: the links that hold the mesh object of an id.\<close>

definition getNodeConnectionCount :: "GravityGraph \<Rightarrow> string \<Rightarrow> nat" where
  "getNodeConnectionCount G uniqueId =
     (case map_of (nodes G) uniqueId of
        None \<Rightarrow> 0
      | Some node \<Rightarrow> length (filter (touches node) (links G)))"

definition calcLinkScale :: "GravityGraph \<Rightarrow> nat \<Rightarrow> real" where
  "calcLinkScale G connectionCount =
     (if connectionCount \<le> 1 then 1
      else baseNodeScale G + (real connectionCount * linkScaleMultiplier G))"

text \<open>Step 1 of the node loop for a node that is not frozen: the velocity after
  adding the force, friction and the speed limit.\<close>

definition applyFriction :: "real \<Rightarrow> vec3 \<Rightarrow> vec3" where
  "applyFriction fr v =
     (if fr > 0 then
        (let speedSq = lengthSq v
         in if speedSq > 0.0001 then
              (let speed' = sqrt speedSq;
                   frictionMagnitude = fr * speedSq;
                   frictionScale = 1 - (frictionMagnitude / speed')
               in multiplyScalar v (max 0 frictionScale))
            else v)
      else v)"

definition limitSpeed :: "real \<Rightarrow> vec3 \<Rightarrow> vec3" where
  "limitSpeed ms v =
     (let currentSpeed = length3 v
      in if currentSpeed > ms then multiplyScalar (normalize v) ms else v)"

definition integratedVelocity :: "GravityGraph \<Rightarrow> PhysicsMesh \<Rightarrow> vec3" where
  "integratedVelocity G m =
     limitSpeed (maxSpeed G) (applyFriction (friction (forces G)) (add3 (velocity m) (force m)))"

definition shouldFreeze :: "GravityGraph \<Rightarrow> PhysicsMesh \<Rightarrow> bool" where
  "shouldFreeze G m \<longleftrightarrow>
     (let speedSq = lengthSq (integratedVelocity G m);
          forceSq = lengthSq (force m);
          freezeThreshold = velocityTreshold G * velocityTreshold G
      in speedSq < freezeThreshold \<and> forceSq < freezeThreshold * 100)"

definition shouldUnfreeze :: "GravityGraph \<Rightarrow> PhysicsMesh \<Rightarrow> bool" where
  "shouldUnfreeze G m \<longleftrightarrow>
     lengthSq (force m) > velocityTreshold G * velocityTreshold G * 100"

text \<open>\<open>frozenNodes\<close> is a JavaScript \<open>Set\<close>: a list without repetition.\<close>

definition set_add :: "'a \<Rightarrow> 'a list \<Rightarrow> 'a list" where
  "set_add x xs = (if x \<in> set xs then xs else xs @ [x])"

definition moveActive :: "GravityGraph \<Rightarrow> PhysicsMesh \<Rightarrow> PhysicsMesh" where
  "moveActive G m =
     (let v = integratedVelocity G m;
          m1 = m\<lparr>velocity := v\<rparr>;
          m2 = (if freeze G then
                  (if shouldFreeze G m then m1\<lparr>velocity := Vec3 0 0 0, force := Vec3 0 0 0\<rparr>
                   else m1)
                else
                  (if lengthSq v < velocityTreshold G * velocityTreshold G
                   then m1\<lparr>velocity := Vec3 0 0 0\<rparr> else m1))
      in m2\<lparr>position := add3 (position m2) (velocity m2)\<rparr>)"

definition updatePosition :: "string \<Rightarrow> ref \<Rightarrow> GravityGraph \<Rightarrow> GravityGraph" where
  "updatePosition uid node G =
     (case heap G node of
        None \<Rightarrow> G
      | Some m \<Rightarrow>
          if uid \<notin> set (frozenNodes G) then
            G\<lparr>heap := (heap G)(node \<mapsto> moveActive G m),
              frozenNodes := (if freeze G \<and> shouldFreeze G m
                              then set_add uid (frozenNodes G) else frozenNodes G)\<rparr>
          else
            (if shouldUnfreeze G m
             then G\<lparr>frozenNodes := removeAll uid (frozenNodes G)\<rparr> else G))"

text \<open>Step 2, the colour pulse.\<close>

definition updateColor :: "string \<Rightarrow> ref \<Rightarrow> GravityGraph \<Rightarrow> GravityGraph" where
  "updateColor uid node G =
     (case map_of (colorPulseData G) uid of
        None \<Rightarrow> G
      | Some pulseData \<Rightarrow>
          (let phase' = phase pulseData + speed pulseData * 0.016;
               pulseFactor = (sin phase' + 1) * 0.5
           in G\<lparr>colorPulseData :=
                  AList.update uid (pulseData\<lparr>phase := phase'\<rparr>) (colorPulseData G),
                heap := modify node
                  (\<lambda>m. m\<lparr>emissiveIntensity :=
                            pulseFactor * emissiveStrenghtMultiplier pulseData\<rparr>) (heap G)\<rparr>))"

text \<open>Step 3, the node scale.\<close>

definition updateScale :: "(string \<times> nat) list \<Rightarrow> string \<Rightarrow> ref \<Rightarrow> GravityGraph \<Rightarrow> GravityGraph"
where
  "updateScale counts uid node G =
     (let connectionCount = count_get counts uid;
          s = calcLinkScale G connectionCount
      in G\<lparr>heap := modify node (\<lambda>m. m\<lparr>scale := Vec3 s s s\<rparr>) (heap G)\<rparr>)"

text \<open>Step 4, the labels.  Of the camera the loop uses the distance to a point and
  the depth of its projection; \<open>hasRect\<close> says whether the label container has a
  parent element.  The second component of the loop state is \<open>visibleLabels\<close>.\<close>

record View =
  cameraDistance :: "vec3 \<Rightarrow> real"
  projectedZ :: "vec3 \<Rightarrow> real"
  hasRect :: bool

definition updateLabel ::
  "View option \<Rightarrow> string \<Rightarrow> ref \<Rightarrow> GravityGraph \<times> string list \<Rightarrow> GravityGraph \<times> string list"
where
  "updateLabel cam uid node Gv =
     (case cam of
        None \<Rightarrow> Gv
      | Some camera \<Rightarrow>
          if \<not> hasRect camera then Gv
          else (case heap (fst Gv) node of
                  None \<Rightarrow> Gv
                | Some m \<Rightarrow>
                    (let distanceToCamera = cameraDistance camera (position m);
                         shouldBeVisible =
                           (distanceToCamera \<le> maxVisibleDistance (fst Gv)
                            \<and> projectedZ camera (position m) < 1)
                     in if shouldBeVisible then
                          ((if map_of (labels (fst Gv)) uid = None
                            then (fst Gv)\<lparr>labels := AList.update uid
                                   \<lparr>textContent = or_else (Some (userData_noteTitle m)) uid\<rparr>
                                   (labels (fst Gv))\<rparr>
                            else fst Gv),
                           set_add uid (snd Gv))
                        else Gv)))"

definition updateNode ::
  "(string \<times> nat) list \<Rightarrow> View option \<Rightarrow> string \<times> ref \<Rightarrow> GravityGraph \<times> string list
    \<Rightarrow> GravityGraph \<times> string list"
where
  "updateNode counts cam entry Gv =
     (let uid = fst entry; node = snd entry;
          G1 = updatePosition uid node (fst Gv);
          G2 = updateColor uid node G1;
          G3 = updateScale counts uid node G2
      in updateLabel cam uid node (G3, snd Gv))"

definition cleanupLabels :: "View option \<Rightarrow> string list \<Rightarrow> GravityGraph \<Rightarrow> GravityGraph" where
  "cleanupLabels cam visibleLabels G =
     (case cam of
        None \<Rightarrow> G
      | Some camera \<Rightarrow> G\<lparr>labels := filter (\<lambda>e. fst e \<in> set visibleLabels) (labels G)\<rparr>)"

definition updateAllNodes :: "GravityGraph \<Rightarrow> View option \<Rightarrow> GravityGraph" where
  "updateAllNodes G cam =
     (let counts = nodeConnectionCounts G;
          Gv = fold (updateNode counts cam) (nodes G) (G, [])
      in cleanupLabels cam (snd Gv) (fst Gv))"

text \<open>One frame of \<open>animate\<close> while the simulation is running.\<close>

definition tick :: "GravityGraph \<Rightarrow> View option \<Rightarrow> GravityGraph option" where
  "tick G cam = map_option (\<lambda>G'. updateAllNodes G' cam) (calculateForces G)"

section \<open>The Particle Flow System: \<open>LinkParticleSystem\<close>\<close>

text \<open>
  The pool meshes are objects of their own store \<open>pool_heap\<close>; \<open>pool_scene\<close> is the
  part of the scene the particle system has added.  A link is given to the particle
  system as the pair of its two node objects, and \<open>nodePos\<close> reads the current
  position of a node object.  \<open>maxParticles\<close> is a whole number: the settings slider
  runs from 100 to 1000 in steps of 1 and the default of the constructor is 5000.
\<close>

record ParticleMesh =
  visible :: bool
  mesh_position :: vec3
  mesh_scale :: real

record Particle =
  mesh :: ref
  link :: "ref \<times> ref"
  progress :: real
  particle_speed :: real
  direction :: int

record LinkParticleSystem =
  pool_heap :: "ref \<Rightarrow> ParticleMesh option"
  pool_next :: ref
  pool_scene :: "ref list"
  pool_disposed :: "(ref \<times> resource) list"
  particles :: "Particle list"
  particlePool :: "ref list"
  maxParticles :: nat
  spawnRate :: real
  lastSpawn :: real
  particlesDelay :: "real option"

definition hide :: "ref \<Rightarrow> (ref \<Rightarrow> ParticleMesh option) \<Rightarrow> (ref \<Rightarrow> ParticleMesh option)" where
  "hide p h = h(p := map_option (\<lambda>m. m\<lparr>visible := False\<rparr>) (h p))"

definition clearParticles :: "LinkParticleSystem \<Rightarrow> LinkParticleSystem" where
  "clearParticles S =
     S\<lparr>pool_heap := fold hide (map mesh (particles S)) (pool_heap S), particles := []\<rparr>"

definition dispose :: "LinkParticleSystem \<Rightarrow> LinkParticleSystem" where
  "dispose S =
     (let S1 = clearParticles S
      in S1\<lparr>pool_scene := filter (\<lambda>obj. obj \<notin> set (particlePool S1)) (pool_scene S1),
            pool_disposed := pool_disposed S1 @ concat (map disposeBoth (particlePool S1)),
            particlePool := []\<rparr>)"

text \<open>The \<open>for\<close> loop of \<open>initializeParticlePool\<close>, \<open>n\<close> iterations left.\<close>

primrec createPool :: "nat \<Rightarrow> LinkParticleSystem \<Rightarrow> LinkParticleSystem" where
  "createPool 0 S = S"
| "createPool (Suc n) S =
     createPool n
       (S\<lparr>pool_heap := (pool_heap S)(pool_next S \<mapsto>
                \<lparr>visible = False, mesh_position = Vec3 0 0 0, mesh_scale = 1\<rparr>),
          pool_next := Suc (pool_next S),
          pool_scene := pool_scene S @ [pool_next S],
          particlePool := particlePool S @ [pool_next S]\<rparr>)"

definition initializeParticlePool :: "LinkParticleSystem \<Rightarrow> LinkParticleSystem" where
  "initializeParticlePool S = (let S1 = dispose S in createPool (maxParticles S1) S1)"

definition LinkParticleSystem_constructor :: "nat \<Rightarrow> LinkParticleSystem" where
  "LinkParticleSystem_constructor n =
     initializeParticlePool
       \<lparr>pool_heap = (\<lambda>_. None), pool_next = 0, pool_scene = [], pool_disposed = [],
        particles = [], particlePool = [], maxParticles = n, spawnRate = 1000,
        lastSpawn = 0, particlesDelay = None\<rparr>"

definition updateParticlePosition ::
  "(ref \<Rightarrow> vec3) \<Rightarrow> Particle \<Rightarrow> (ref \<Rightarrow> ParticleMesh option) \<Rightarrow> (ref \<Rightarrow> ParticleMesh option)"
where
  "updateParticlePosition nodePos particle h =
     (let startPos = (if direction particle = 1 then nodePos (fst (link particle))
                      else nodePos (snd (link particle)));
          endPos = (if direction particle = 1 then nodePos (snd (link particle))
                    else nodePos (fst (link particle)))
      in h(mesh particle := map_option
             (\<lambda>m. m\<lparr>mesh_position := lerpVectors startPos endPos (progress particle)\<rparr>)
             (h (mesh particle))))"

definition idle :: "(ref \<Rightarrow> ParticleMesh option) \<Rightarrow> ref \<Rightarrow> bool" where
  "idle h p = (case h p of None \<Rightarrow> False | Some m \<Rightarrow> \<not> visible m)"

text \<open>\<open>spawnParticle(link)\<close>; \<open>rnd\<close> is the result of \<open>Math.random()\<close>.\<close>

definition spawnParticle ::
  "(ref \<Rightarrow> vec3) \<Rightarrow> real \<Rightarrow> ref \<times> ref \<Rightarrow> LinkParticleSystem \<Rightarrow> LinkParticleSystem" where
  "spawnParticle nodePos rnd lnk S =
     (if length (particles S) \<ge> maxParticles S then S
      else (case find (idle (pool_heap S)) (particlePool S) of
              None \<Rightarrow> S
            | Some availableParticle \<Rightarrow>
                (let dir = 1;
                     startProgress = (if dir = 1 then 0 else 1);
                     particle = \<lparr>mesh = availableParticle, link = lnk,
                                 progress = startProgress,
                                 particle_speed = 0.3 + rnd * 0.4, direction = dir\<rparr>;
                     h1 = updateParticlePosition nodePos particle (pool_heap S);
                     h2 = h1(availableParticle :=
                             map_option (\<lambda>m. m\<lparr>visible := True\<rparr>) (h1 availableParticle))
                 in S\<lparr>pool_heap := h2, particles := particles S @ [particle]\<rparr>)))"

text \<open>The body of the particle loop of \<open>update\<close> at index \<open>i\<close>, and the loop itself,
  which runs from the last index down to \<open>0\<close>.\<close>

definition stepParticle ::
  "real \<Rightarrow> real \<Rightarrow> (ref \<Rightarrow> vec3) \<Rightarrow> nat \<Rightarrow> LinkParticleSystem \<Rightarrow> LinkParticleSystem" where
  "stepParticle deltaTime currentTime nodePos i S =
     (if i < length (particles S) then
        (let p0 = particles S ! i;
             particle = p0\<lparr>progress := progress p0
                            + particle_speed p0 * deltaTime * real_of_int (direction p0)\<rparr>
         in if (direction particle = 1 \<and> progress particle \<ge> 1)
               \<or> (direction particle = - 1 \<and> progress particle \<le> 0)
            then S\<lparr>pool_heap := hide (mesh particle) (pool_heap S),
                   particles := take i (particles S) @ drop (Suc i) (particles S)\<rparr>
            else
              (let h1 = updateParticlePosition nodePos particle (pool_heap S);
                   pulse = 1 + 0.3 * sin (currentTime * 0.005 + real i);
                   h2 = h1(mesh particle :=
                           map_option (\<lambda>m. m\<lparr>mesh_scale := pulse\<rparr>) (h1 (mesh particle)))
               in S\<lparr>pool_heap := h2, particles := (particles S)[i := particle]\<rparr>))
      else S)"

primrec particleLoop ::
  "real \<Rightarrow> real \<Rightarrow> (ref \<Rightarrow> vec3) \<Rightarrow> nat \<Rightarrow> LinkParticleSystem \<Rightarrow> LinkParticleSystem" where
  "particleLoop deltaTime currentTime nodePos 0 S = S"
| "particleLoop deltaTime currentTime nodePos (Suc i) S =
     particleLoop deltaTime currentTime nodePos i
       (stepParticle deltaTime currentTime nodePos i S)"

text \<open>\<open>update(deltaTime, links)\<close>.  \<open>currentTime\<close> is \<open>performance.now()\<close> and
  \<open>shuffledLinks\<close> the outcome of the random sort of the links.  The spawns are
  deferred with \<open>setTimeout\<close>: they are not part of this call, and are returned as
  the list of links to spawn on, in order.\<close>

definition LinkParticleSystem_update ::
  "real \<Rightarrow> real \<Rightarrow> (ref \<Rightarrow> vec3) \<Rightarrow> (ref \<times> ref) list \<Rightarrow> (ref \<times> ref) list
    \<Rightarrow> LinkParticleSystem \<Rightarrow> LinkParticleSystem \<times> (ref \<times> ref) list" where
  "LinkParticleSystem_update deltaTime currentTime nodePos lnks shuffledLinks S =
     (let due = (currentTime - lastSpawn S > spawnRate S \<and> lnks \<noteq> []);
          S1 = (if due then S\<lparr>lastSpawn := currentTime\<rparr> else S)
      in (particleLoop deltaTime currentTime nodePos (length (particles S1)) S1,
          if due then shuffledLinks else []))"

definition setSpawnRate :: "real \<Rightarrow> LinkParticleSystem \<Rightarrow> LinkParticleSystem" where
  "setSpawnRate milliseconds S = S\<lparr>spawnRate := milliseconds\<rparr>"

definition setMaxParticles :: "nat \<Rightarrow> LinkParticleSystem \<Rightarrow> LinkParticleSystem" where
  "setMaxParticles n S = initializeParticlePool (S\<lparr>maxParticles := n\<rparr>)"

definition setParticlesShuffleDelay :: "real \<Rightarrow> LinkParticleSystem \<Rightarrow> LinkParticleSystem" where
  "setParticlesShuffleDelay delay S = S\<lparr>particlesDelay := Some delay\<rparr>"

text \<open>The public methods of the particle system as operations, and a run of them.\<close>

datatype particle_op =
    Spawn "ref \<Rightarrow> vec3" real "ref \<times> ref"
  | Update real real "ref \<Rightarrow> vec3" "(ref \<times> ref) list" "(ref \<times> ref) list"
  | SetSpawnRate real
  | SetMaxParticles nat
  | SetParticlesShuffleDelay real
  | ClearParticles
  | Dispose

fun apply_op :: "particle_op \<Rightarrow> LinkParticleSystem \<Rightarrow> LinkParticleSystem" where
  "apply_op (Spawn nodePos rnd lnk) S = spawnParticle nodePos rnd lnk S"
| "apply_op (Update dt t nodePos lnks shuffled) S =
     fst (LinkParticleSystem_update dt t nodePos lnks shuffled S)"
| "apply_op (SetSpawnRate ms) S = setSpawnRate ms S"
| "apply_op (SetMaxParticles n) S = setMaxParticles n S"
| "apply_op (SetParticlesShuffleDelay d) S = setParticlesShuffleDelay d S"
| "apply_op ClearParticles S = clearParticles S"
| "apply_op Dispose S = dispose S"

definition run :: "particle_op list \<Rightarrow> LinkParticleSystem \<Rightarrow> LinkParticleSystem" where
  "run ops S = fold apply_op ops S"

section \<open>The Identity Resolver: \<open>GraphView.generateUniqueNodeId\<close>\<close>

text \<open>\<open>path.split('/')\<close>, \<open>.slice(-2, -1)\<close> and the decimal rendering of the
  counter in the template string.\<close>

fun split_on :: "char \<Rightarrow> string \<Rightarrow> string list" where
  "split_on c [] = [[]]"
| "split_on c (x # xs) =
     (if x = c then [] # split_on c xs
      else (case split_on c xs of [] \<Rightarrow> [[x]] | w # ws \<Rightarrow> (x # w) # ws))"

definition slice_m2_m1 :: "'a list \<Rightarrow> 'a list" where
  "slice_m2_m1 xs = (let n = length xs in take ((n - 1) - (n - 2)) (drop (n - 2) xs))"

definition folderNameOf :: "string \<Rightarrow> string" where
  "folderNameOf path =
     or_else (case slice_m2_m1 (split_on CHR ''/'' path) of [] \<Rightarrow> None | x # _ \<Rightarrow> Some x)
       ''root''"

definition digit_char :: "nat \<Rightarrow> char" where
  "digit_char d = char_of (48 + d)"

function show_nat :: "nat \<Rightarrow> string" where
  "show_nat n =
     (if n < 10 then [digit_char n] else show_nat (n div 10) @ [digit_char (n mod 10)])"
  by pat_completeness auto
termination
  by (relation "measure id") auto

declare show_nat.simps [simp del]

text \<open>Reading a decimal numeral back; used to see that \<open>show_nat\<close> is injective.\<close>

definition digit_val :: "char \<Rightarrow> nat" where
  "digit_val c = of_char c - 48"

definition read_nat :: "string \<Rightarrow> nat" where
  "read_nat s = foldl (\<lambda>a c. 10 * a + digit_val c) 0 s"

text \<open>The two template strings: \<open>`${basename} (${folderName})`\<close> and
  \<open>`${uniqueId} ${counter}`\<close>.\<close>

definition withFolder :: "string \<Rightarrow> string \<Rightarrow> string" where
  "withFolder basename folderName = basename @ '' ('' @ folderName @ '')''"

definition numbered :: "string \<Rightarrow> nat \<Rightarrow> string" where
  "numbered uniqueId counter = uniqueId @ '' '' @ show_nat counter"

text \<open>The \<open>while (this.uniqueIdToPath.has(testId))\<close> loop.  It ends because the
  candidates \<open>uniqueId 1\<close>, \<open>uniqueId 2\<close>, ... are pairwise different and the map is
  finite.\<close>

function probe :: "(string \<times> string) list \<Rightarrow> string \<Rightarrow> string \<Rightarrow> nat \<Rightarrow> string" where
  "probe m uniqueId testId counter =
     (if map_of m testId \<noteq> None
      then probe m uniqueId (numbered uniqueId counter) (counter + 1)
      else testId)"
  by pat_completeness auto
termination
proof (relation "measure (\<lambda>(m, uniqueId, testId, counter).
     (if map_of m testId \<noteq> None then 1 else 0)
       + card {k. counter \<le> k \<and> map_of m (numbered uniqueId k) \<noteq> None})",
    goal_cases)
  case 1
  show ?case by simp
next
  case (2 m uniqueId testId counter)
  let ?key = "numbered uniqueId"
  let ?A = "\<lambda>c. {k. c \<le> k \<and> map_of m (?key k) \<noteq> None}"
  have digit: "\<And>d. d < 10 \<Longrightarrow> digit_val (digit_char d) = d"
    by (simp add: digit_val_def digit_char_def)
  have decode: "read_nat (show_nat n) = n" for n
  proof (induction n rule: show_nat.induct)
    case (1 n)
    show ?case
    proof (cases "n < 10")
      case True
      then show ?thesis by (subst show_nat.simps) (simp add: read_nat_def digit)
    next
      case False
      with 1 have "read_nat (show_nat (n div 10)) = n div 10" by simp
      with False show ?thesis by (subst show_nat.simps) (simp add: read_nat_def digit)
    qed
  qed
  have "inj show_nat" by (metis injI decode)
  then have inj: "inj ?key" by (auto simp: inj_def numbered_def)
  have "{k. map_of m (?key k) \<noteq> None} = ?key -` (fst ` set m)"
    by (auto simp: map_of_eq_None_iff)
  then have fin: "finite {k. map_of m (?key k) \<noteq> None}"
    using finite_vimageI [OF _ inj, of "fst ` set m"] by simp
  have split: "?A counter =
      (if map_of m (?key counter) \<noteq> None then {counter} else {}) \<union> ?A (counter + 1)"
    by (auto simp: Suc_le_eq order_le_less split: if_splits)
  have notin: "counter \<notin> ?A (counter + 1)" by simp
  have finA': "finite (?A (counter + 1))" by (rule finite_subset [OF _ fin]) auto
  have "card (?A counter) =
      (if map_of m (?key counter) \<noteq> None then 1 else 0) + card (?A (counter + 1))"
    using finA' notin by (subst split) simp
  with 2 show ?case by simp
qed

declare probe.simps [simp del]

record IdentityResolver =
  pathToUniqueId :: "(string \<times> string) list"
  uniqueIdToPath :: "(string \<times> string) list"
  nodeNameCounter :: "(string \<times> nat) list"

definition emptyResolver :: IdentityResolver where
  "emptyResolver = \<lparr>pathToUniqueId = [], uniqueIdToPath = [], nodeNameCounter = []\<rparr>"

definition generateUniqueNodeId ::
  "IdentityResolver \<Rightarrow> string \<Rightarrow> string \<Rightarrow> string \<times> IdentityResolver" where
  "generateUniqueNodeId R basename path =
     (case map_of (pathToUniqueId R) path of
        Some known \<Rightarrow> (known, R)
      | None \<Rightarrow>
          (let count = (case map_of (nodeNameCounter R) basename of None \<Rightarrow> 0 | Some c \<Rightarrow> c);
               R1 = R\<lparr>nodeNameCounter := AList.update basename (count + 1) (nodeNameCounter R)\<rparr>;
               uniqueId =
                 (if count = 0 then basename
                  else (let folderName = folderNameOf path;
                            candidate = withFolder basename folderName
                        in probe (uniqueIdToPath R1) candidate candidate 1))
           in (uniqueId,
               R1\<lparr>pathToUniqueId := AList.update path uniqueId (pathToUniqueId R1),
                  uniqueIdToPath := AList.update uniqueId path (uniqueIdToPath R1)\<rparr>)))"

text \<open>Resolving a list of \<open>(basename, path)\<close> pairs in order, as the initial scan of
  the vault does.\<close>

fun resolveAll :: "IdentityResolver \<Rightarrow> (string \<times> string) list \<Rightarrow> IdentityResolver" where
  "resolveAll R [] = R"
| "resolveAll R ((basename, path) # files) =
     resolveAll (snd (generateUniqueNodeId R basename path)) files"

section \<open>Example states\<close>

text \<open>Three notes \<open>A\<close>, \<open>B\<close>, \<open>C\<close> with \<open>B\<close> linked to \<open>A\<close> and to \<open>C\<close>.\<close>

definition abc_graph :: GravityGraph where
  "abc_graph =
     addLink (addLink
       (addNode (addNode (addNode GravityGraph_constructor
          ''A'' (Some ''notes/A.md'') (Some ''A'') 0 0)
          ''B'' (Some ''notes/B.md'') (Some ''B'') 0 0)
          ''C'' (Some ''notes/C.md'') (Some ''C'') 0 0)
       ''B'' ''A'') ''B'' ''C''"

text \<open>The same id added once and added twice to the empty graph; and \<open>abc_graph\<close>
  after \<open>A\<close> is added again and linked to \<open>B\<close> again.\<close>

definition added_once :: GravityGraph where
  "added_once = addNode GravityGraph_constructor ''a'' (Some ''a.md'') (Some ''a'') 0 0"

definition added_twice :: GravityGraph where
  "added_twice = addNode added_once ''a'' (Some ''a.md'') (Some ''a'') 0 0"

definition relinked :: GravityGraph where
  "relinked =
     addLink (addNode abc_graph ''A'' (Some ''notes/A.md'') (Some ''A'') 0 0) ''B'' ''A''"

text \<open>\<open>abc_graph\<close> after the note \<open>B\<close> is renamed to \<open>D\<close>, as \<open>onNoteRenamed\<close> calls
  \<open>renameNode\<close>: with the new id and the new path.\<close>

definition renamed_abc :: GravityGraph where
  "renamed_abc = renameNode abc_graph ''B'' ''D'' (Some ''notes/D.md'')"

text \<open>The ids of the two ends of a link, read from \<open>userData.uniqueId\<close> of the mesh
  objects the link holds.\<close>

definition endpointIds :: "GravityGraph \<Rightarrow> Link \<Rightarrow> string option \<times> string option" where
  "endpointIds G l =
     (map_option userData_uniqueId (heap G (link_from l)),
      map_option userData_uniqueId (heap G (link_to l)))"

text \<open>A camera that sees every point, and the graph with the single note \<open>X\<close>
  after one frame with that camera: \<open>X\<close> has a file path and a label.\<close>

definition everything_visible :: View where
  "everything_visible = \<lparr>cameraDistance = (\<lambda>_. 1), projectedZ = (\<lambda>_. 0), hasRect = True\<rparr>"

definition x_added :: GravityGraph where
  "x_added = addNode GravityGraph_constructor ''X'' (Some ''notes/X.md'') (Some ''X'') 0 0"

definition x_graph :: GravityGraph where
  "x_graph = updateAllNodes x_added (Some everything_visible)"

text \<open>The writes of the callers: \<open>MyPlugin.updateSettingsParameters\<close> assigns
  \<open>freeze\<close> (and clears \<open>frozenNodes\<close> when it is switched off),
  \<open>GraphView.startNodeAddition\<close> sets the position and the velocity of a new node.\<close>

definition setFreeze :: "bool \<Rightarrow> GravityGraph \<Rightarrow> GravityGraph" where
  "setFreeze enabled G =
     G\<lparr>freeze := enabled, frozenNodes := (if \<not> enabled then [] else frozenNodes G)\<rparr>"

definition place :: "ref \<Rightarrow> vec3 \<Rightarrow> vec3 \<Rightarrow> GravityGraph \<Rightarrow> GravityGraph" where
  "place node p v G =
     G\<lparr>heap := modify node (\<lambda>m. m\<lparr>position := p, velocity := v\<rparr>) (heap G)\<rparr>"

text \<open>Two notes \<open>p\<close> and \<open>q\<close> without a link, \<open>p\<close> at the origin and \<open>q\<close> at
  \<open>(1, 0, 0)\<close>, all settings at their defaults; \<open>pair_mesh\<close> is the mesh object of
  such a note.\<close>

definition pair_graph :: GravityGraph where
  "pair_graph =
     place 1 (Vec3 1 0 0) (Vec3 0 0 0)
       (addNode (addNode GravityGraph_constructor ''p'' None None 0 0) ''q'' None None 0 0)"

definition pair_mesh :: "string \<Rightarrow> vec3 \<Rightarrow> PhysicsMesh" where
  "pair_mesh uid p =
     \<lparr>position = p, velocity = Vec3 0 0 0, force = Vec3 0 0 0, mass = 1,
      scale = Vec3 1 1 1, materialColor = white, emissive = white,
      emissiveIntensity = 0.5, userData_noteTitle = uid, userData_uniqueId = uid,
      userData_filePath = None\<rparr>"

text \<open>A single note at distance \<open>1000 * d\<close> from the origin that moves away from it
  with speed \<open>d\<close>, freezing enabled, all other settings at their defaults:
  \<open>drift_start d\<close> before \<open>calculateForces\<close>, \<open>drift d\<close> after it (the centre
  attraction is the force \<open>- d\<close>), \<open>drift_mesh d\<close> the mesh object of the note
  in \<open>drift d\<close>.\<close>

definition drift_start :: "real \<Rightarrow> GravityGraph" where
  "drift_start d =
     place 0 (Vec3 (1000 * d) 0 0) (Vec3 d 0 0)
       (setFreeze True
         (addNode GravityGraph_constructor ''a'' (Some ''a.md'') (Some ''a'') 0 0))"

definition drift :: "real \<Rightarrow> GravityGraph" where
  "drift d =
     (drift_start d)\<lparr>heap :=
        modify 0 (\<lambda>m. m\<lparr>force := Vec3 (- d) 0 0\<rparr>) (heap (drift_start d))\<rparr>"

definition drift_mesh :: "real \<Rightarrow> PhysicsMesh" where
  "drift_mesh d =
     \<lparr>position = Vec3 (1000 * d) 0 0, velocity = Vec3 d 0 0, force = Vec3 (- d) 0 0,
      mass = 1, scale = Vec3 1 1 1, materialColor = white, emissive = white,
      emissiveIntensity = 0.5, userData_noteTitle = ''a'', userData_uniqueId = ''a'',
      userData_filePath = Some ''a.md''\<rparr>"

section \<open>What one iteration of the node loop reads and writes\<close>

text \<open>Steps 1 to 3 of the loop body for one entry of \<open>nodes\<close>, and the part of the
  state they read and write for that entry: its mesh object, whether its id is
  frozen, its pulse data and the settings.\<close>

definition nodeIteration ::
  "(string \<times> nat) list \<Rightarrow> string \<Rightarrow> ref \<Rightarrow> GravityGraph \<Rightarrow> GravityGraph" where
  "nodeIteration counts uid node G =
     updateScale counts uid node (updateColor uid node (updatePosition uid node G))"

definition agree :: "string \<Rightarrow> ref \<Rightarrow> GravityGraph \<Rightarrow> GravityGraph \<Rightarrow> bool" where
  "agree uid node G G' \<longleftrightarrow>
     heap G node = heap G' node
     \<and> (uid \<in> set (frozenNodes G) \<longleftrightarrow> uid \<in> set (frozenNodes G'))
     \<and> map_of (colorPulseData G) uid = map_of (colorPulseData G') uid
     \<and> forces G = forces G' \<and> maxSpeed G = maxSpeed G' \<and> freeze G = freeze G'
     \<and> velocityTreshold G = velocityTreshold G'
     \<and> baseNodeScale G = baseNodeScale G' \<and> linkScaleMultiplier G = linkScaleMultiplier G'"

section \<open>Notions used in the statements\<close>

text \<open>The distance of two mesh objects and the vector \<open>direction\<close> of the repulsion
  loop, as the loop body computes them.\<close>

definition separation :: "(ref \<Rightarrow> PhysicsMesh option) \<Rightarrow> ref \<Rightarrow> ref \<Rightarrow> real" where
  "separation h nodeA nodeB = distanceTo (position_of h nodeA) (position_of h nodeB)"

definition repulsionDirection ::
  "real \<Rightarrow> (ref \<Rightarrow> PhysicsMesh option) \<Rightarrow> ref \<Rightarrow> ref \<Rightarrow> vec3" where
  "repulsionDirection rep h nodeA nodeB =
     multiplyScalar (normalize (sub3 (position_of h nodeA) (position_of h nodeB)))
       (rep / (separation h nodeA nodeB * separation h nodeA nodeB))"

text \<open>What the repulsion loops add up to.  \<open>pairForce rep h a b\<close> is the force that
  the pair of \<open>a\<close> and \<open>b\<close> puts on \<open>a\<close>: nothing when the two are closer than \<open>0.1\<close>,
  and \<open>repulsionDirection\<close> otherwise.  \<open>netRepulsion rep h ns x\<close> is the sum of the
  forces that the pairs of \<open>x\<close> with every other node of \<open>ns\<close> put on \<open>x\<close>, and
  \<open>pushed d h\<close> is the store \<open>h\<close> with \<open>d x\<close> added to the force of every mesh object
  \<open>x\<close>.\<close>

fun neg3 :: "vec3 \<Rightarrow> vec3" where
  "neg3 (Vec3 a b c) = Vec3 (- a) (- b) (- c)"

definition sum3 :: "vec3 list \<Rightarrow> vec3" where
  "sum3 vs = foldr add3 vs (Vec3 0 0 0)"

definition pairForce :: "real \<Rightarrow> (ref \<Rightarrow> PhysicsMesh option) \<Rightarrow> ref \<Rightarrow> ref \<Rightarrow> vec3" where
  "pairForce rep h nodeA nodeB =
     (if separation h nodeA nodeB < 0.1 then Vec3 0 0 0
      else repulsionDirection rep h nodeA nodeB)"

definition netRepulsion ::
  "real \<Rightarrow> (ref \<Rightarrow> PhysicsMesh option) \<Rightarrow> ref list \<Rightarrow> ref \<Rightarrow> vec3" where
  "netRepulsion rep h ns x =
     (if x \<in> set ns then sum3 (map (pairForce rep h x) (filter (\<lambda>y. y \<noteq> x) ns))
      else Vec3 0 0 0)"

definition pushed :: "(ref \<Rightarrow> vec3) \<Rightarrow> (ref \<Rightarrow> PhysicsMesh option) \<Rightarrow> (ref \<Rightarrow> PhysicsMesh option)"
where
  "pushed d h = (\<lambda>x. map_option (force_add (d x)) (h x))"

text \<open>The forces added by one pass of the inner loop body, and by one run of
  the inner loop.\<close>

definition pairDelta :: "vec3 \<Rightarrow> ref \<Rightarrow> ref \<Rightarrow> ref \<Rightarrow> vec3" where
  "pairDelta d a b x = (if x = a then d else if x = b then neg3 d else Vec3 0 0 0)"

definition rowDelta :: "real \<Rightarrow> (ref \<Rightarrow> PhysicsMesh option) \<Rightarrow> ref \<Rightarrow> ref list \<Rightarrow> ref \<Rightarrow> vec3" where
  "rowDelta rep h a bs x =
     (if x = a then sum3 (map (pairForce rep h a) bs)
      else if x \<in> set bs then neg3 (pairForce rep h a x) else Vec3 0 0 0)"

text \<open>Two mesh objects, one at the origin and one at \<open>q\<close>.\<close>

definition body :: "vec3 \<Rightarrow> PhysicsMesh" where
  "body p =
     \<lparr>position = p, velocity = Vec3 0 0 0, force = Vec3 0 0 0, mass = 1,
      scale = Vec3 1 1 1, materialColor = white, emissive = white,
      emissiveIntensity = 0.5, userData_noteTitle = ''n'', userData_uniqueId = ''n'',
      userData_filePath = None\<rparr>"

definition two_bodies :: "vec3 \<Rightarrow> (ref \<Rightarrow> PhysicsMesh option)" where
  "two_bodies q = [0 \<mapsto> body (Vec3 0 0 0), 1 \<mapsto> body q]"

text \<open>A pool mesh as \<open>initializeParticlePool\<close> creates it; the bound on the live
  particles; runs that do not call \<open>setMaxParticles\<close>.\<close>

definition freshMesh :: ParticleMesh where
  "freshMesh = \<lparr>visible = False, mesh_position = Vec3 0 0 0, mesh_scale = 1\<rparr>"

definition bounded :: "LinkParticleSystem \<Rightarrow> bool" where
  "bounded S \<longleftrightarrow> length (particles S) \<le> maxParticles S"

definition keeps_maximum :: "particle_op list \<Rightarrow> bool" where
  "keeps_maximum ops =
     list_all (\<lambda>op. case op of SetMaxParticles n \<Rightarrow> False | _ \<Rightarrow> True) ops"

text \<open>Particle systems with one particle in flight: the pool of \<open>full_system\<close> has
  one slot, the pool of \<open>busy_system\<close> two.  All nodes sit at the origin.\<close>

definition origin :: "ref \<Rightarrow> vec3" where
  "origin = (\<lambda>_. Vec3 0 0 0)"

definition full_system :: LinkParticleSystem where
  "full_system = spawnParticle origin 0 (0, 1) (LinkParticleSystem_constructor 1)"

definition busy_system :: LinkParticleSystem where
  "busy_system = spawnParticle origin 0 (0, 1) (LinkParticleSystem_constructor 2)"

text \<open>The notes \<open>a/x.md\<close> and \<open>b/x.md\<close> resolved in this order, and then the note
  \<open>c/x (b).md\<close>, whose basename is \<open>x (b)\<close>.\<close>

definition two_notes :: IdentityResolver where
  "two_notes = resolveAll emptyResolver [(''x'', ''a/x.md''), (''x'', ''b/x.md'')]"

definition three_notes :: IdentityResolver where
  "three_notes = snd (generateUniqueNodeId two_notes ''x (b)'' ''c/x (b).md'')"

text \<open>The number of ends of a link that the reverse lookup maps to an id, as
  \<open>nodeConnectionCounts\<close> counts them; and lists of links without two links between
  the same two mesh objects.\<close>

definition linkEnds :: "(ref \<times> string) list \<Rightarrow> string \<Rightarrow> Link \<Rightarrow> nat" where
  "linkEnds n2i uid l =
     (case (map_of n2i (link_from l), map_of n2i (link_to l)) of
        (Some fromUniqueId, Some toUniqueId) \<Rightarrow>
          if fromUniqueId \<noteq> [] \<and> toUniqueId \<noteq> [] then
            (if fromUniqueId = uid then 1 else 0) + (if toUniqueId = uid then 1 else 0)
          else 0
      | _ \<Rightarrow> 0)"

fun unique_links :: "Link list \<Rightarrow> bool" where
  "unique_links [] = True"
| "unique_links (l # ls) =
     (\<not> list_ex (connects (link_from l) (link_to l)) ls \<and> unique_links ls)"

text \<open>The graphs that the operations produce: the ids and the mesh objects of
  \<open>nodes\<close> are pairwise different and every mesh object is allocated.  A history is
  a sequence of calls of the store, of the direct writes of its callers and of
  frames (\<open>calculateForces\<close> followed by \<open>updateAllNodes\<close>) on a new graph.\<close>

definition wellFormed :: "GravityGraph \<Rightarrow> bool" where
  "wellFormed G \<longleftrightarrow>
     distinct (map fst (nodes G)) \<and> distinct (map snd (nodes G))
     \<and> list_all (\<lambda>e. snd e < next_ref G \<and> heap G (snd e) \<noteq> None) (nodes G)"

datatype store_op =
    AddNode string "string option" "string option" real real
  | AddLink string string
  | RemoveNode string
  | RemoveLink string string
  | RenameNode string string "string option"
  | Place ref vec3 vec3
  | SetFreeze bool
  | Frame "View option"

fun apply_store_op :: "store_op \<Rightarrow> GravityGraph \<Rightarrow> GravityGraph" where
  "apply_store_op (AddNode uid p d r1 r2) G = addNode G uid p d r1 r2"
| "apply_store_op (AddLink a b) G = addLink G a b"
| "apply_store_op (RemoveNode uid) G = removeNode G uid"
| "apply_store_op (RemoveLink a b) G = removeLink G a b"
| "apply_store_op (RenameNode old new p) G = renameNode G old new p"
| "apply_store_op (Place node p v) G = place node p v G"
| "apply_store_op (SetFreeze enabled) G = setFreeze enabled G"
| "apply_store_op (Frame cam) G =
     (case calculateForces G of None \<Rightarrow> G | Some G' \<Rightarrow> updateAllNodes G' cam)"

definition history :: "store_op list \<Rightarrow> GravityGraph" where
  "history ops = fold apply_store_op ops GravityGraph_constructor"

section \<open>Properties of the Graph Store\<close>

subsection \<open>Field-wise evaluation of \<open>addNode\<close> and \<open>addLink\<close>\<close>

lemma addNode_fields:
  "nodes (addNode G uid p d r1 r2) = AList.update uid (next_ref G) (nodes G)"
  "next_ref (addNode G uid p d r1 r2) = Suc (next_ref G)"
  "links (addNode G uid p d r1 r2) = links G"
  "scene (addNode G uid p d r1 r2) = scene G @ [next_ref G]"
  "nodeToUniqueId (addNode G uid p d r1 r2) = AList.update (next_ref G) uid (nodeToUniqueId G)"
  "labels (addNode G uid p d r1 r2) = labels G"
  "nodeFilePaths (addNode G uid p d r1 r2) =
     (if truthy p then AList.update uid (the p) (nodeFilePaths G) else nodeFilePaths G)"
  by (simp_all add: addNode_def Let_def)

lemma addNode_uniqueId:
  "map_option userData_uniqueId (heap (addNode G uid p d r1 r2) x) =
     (if x = next_ref G then Some uid else map_option userData_uniqueId (heap G x))"
  by (simp add: addNode_def Let_def)

lemma addLink_fields:
  "nodes (addLink G a b) = nodes G"
  "heap (addLink G a b) = heap G"
  "nodeToUniqueId (addLink G a b) = nodeToUniqueId G"
  "labels (addLink G a b) = labels G"
  "nodeFilePaths (addLink G a b) = nodeFilePaths G"
  by (simp_all add: addLink_def Let_def split: option.splits)

lemma addLink_links:
  "links (addLink G a b) =
     (case (map_of (nodes G) a, map_of (nodes G) b) of
        (Some x, Some y) \<Rightarrow>
           if list_ex (connects x y) (links G) then links G
           else links G @ [\<lparr>link_from = x, link_to = y, line = next_ref G\<rparr>]
      | _ \<Rightarrow> links G)"
  "next_ref (addLink G a b) =
     (case (map_of (nodes G) a, map_of (nodes G) b) of
        (Some x, Some y) \<Rightarrow>
           if list_ex (connects x y) (links G) then next_ref G else Suc (next_ref G)
      | _ \<Rightarrow> next_ref G)"
  by (simp_all add: addLink_def Let_def split: option.splits)

lemma constructor_fields:
  "nodes GravityGraph_constructor = []" "links GravityGraph_constructor = []"
  "next_ref GravityGraph_constructor = 0" "scene GravityGraph_constructor = []"
  "nodeToUniqueId GravityGraph_constructor = []" "labels GravityGraph_constructor = []"
  "nodeFilePaths GravityGraph_constructor = []" "heap GravityGraph_constructor x = None"
  by (simp_all add: GravityGraph_constructor_def)

lemma addNode_config:
  "baseNodeScale (addNode G uid p d r1 r2) = baseNodeScale G"
  "linkScaleMultiplier (addNode G uid p d r1 r2) = linkScaleMultiplier G"
  "forces (addNode G uid p d r1 r2) = forces G"
  "maxSpeed (addNode G uid p d r1 r2) = maxSpeed G"
  "freeze (addNode G uid p d r1 r2) = freeze G"
  "frozenNodes (addNode G uid p d r1 r2) = frozenNodes G"
  "velocityTreshold (addNode G uid p d r1 r2) = velocityTreshold G"
  by (simp_all add: addNode_def Let_def)

lemma addLink_config:
  "baseNodeScale (addLink G a b) = baseNodeScale G"
  "linkScaleMultiplier (addLink G a b) = linkScaleMultiplier G"
  "forces (addLink G a b) = forces G"
  "maxSpeed (addLink G a b) = maxSpeed G"
  "freeze (addLink G a b) = freeze G"
  "frozenNodes (addLink G a b) = frozenNodes G"
  "velocityTreshold (addLink G a b) = velocityTreshold G"
  by (simp_all add: addLink_def Let_def split: option.splits)

lemmas store_fields =
  addNode_fields addLink_fields addLink_links constructor_fields connects_def truthy_def

lemma abc_nodes: "nodes abc_graph = [(''A'', 0), (''B'', 1), (''C'', 2)]"
  by (simp add: abc_graph_def store_fields)

lemma abc_links:
  "links abc_graph =
     [\<lparr>link_from = 1, link_to = 0, line = 3\<rparr>, \<lparr>link_from = 1, link_to = 2, line = 4\<rparr>]"
  by (simp add: abc_graph_def store_fields)

lemma abc_next_ref: "next_ref abc_graph = 5"
  by (simp add: abc_graph_def store_fields)

lemma abc_nodeToUniqueId: "nodeToUniqueId abc_graph = [(0, ''A''), (1, ''B''), (2, ''C'')]"
  by (simp add: abc_graph_def store_fields)

lemma abc_uniqueId:
  "map_option userData_uniqueId (heap abc_graph x) =
     (if x = 2 then Some ''C'' else if x = 1 then Some ''B'' else if x = 0 then Some ''A''
      else None)"
  by (simp add: abc_graph_def store_fields addNode_uniqueId)

lemma abc_heap: "heap abc_graph x \<noteq> None \<longleftrightarrow> x = 0 \<or> x = 1 \<or> x = 2"
  using abc_uniqueId [of x] by (auto split: if_splits)

lemma abc_scales: "baseNodeScale abc_graph = 1" "linkScaleMultiplier abc_graph = 1 / 10"
  by (simp_all add: abc_graph_def addNode_config addLink_config GravityGraph_constructor_def)

subsection \<open>Links are created once\<close>

lemma connects_commute: "connects a b l = connects b a l"
  by (auto simp: connects_def)

lemma addLink_present:
  assumes "map_of (nodes G) a = Some x" "map_of (nodes G) b = Some y"
    and "list_ex (connects x y) (links G)"
  shows "addLink G a b = G" "addLink G b a = G"
proof -
  show "addLink G a b = G" using assms by (simp add: addLink_def)
  have "list_ex (connects y x) (links G)"
    using assms(3) by (simp add: list_ex_iff connects_commute [of y x])
  then show "addLink G b a = G" using assms(1,2) by (simp add: addLink_def)
qed

lemma addLink_establishes:
  assumes "map_of (nodes G) a = Some x" "map_of (nodes G) b = Some y"
  shows "list_ex (connects x y) (links (addLink G a b))"
  using assms by (simp add: addLink_def Let_def connects_def)

lemma addLink_absent:
  "map_of (nodes G) a = None \<or> map_of (nodes G) b = None \<Longrightarrow> addLink G a b = G"
  by (auto simp: addLink_def split: option.splits)

text \<open>A second \<open>addLink\<close> for the same pair of ids, in either order, changes
  nothing.\<close>

lemma addLink_idempotent:
  "addLink (addLink G a b) a b = addLink G a b \<and> addLink (addLink G a b) b a = addLink G a b"
proof (cases "map_of (nodes G) a = None \<or> map_of (nodes G) b = None")
  case True
  then have "addLink G a b = G" "addLink G b a = G" by (auto simp: addLink_absent)
  then show ?thesis by simp
next
  case False
  then obtain x y where xy: "map_of (nodes G) a = Some x" "map_of (nodes G) b = Some y"
    by auto
  let ?G = "addLink G a b"
  have "map_of (nodes ?G) a = Some x" "map_of (nodes ?G) b = Some y"
    using xy by (simp_all add: addLink_fields)
  moreover have "list_ex (connects x y) (links ?G)" using xy by (rule addLink_establishes)
  ultimately show ?thesis using addLink_present by blast
qed

text \<open>
  Claim C1 (idempotence of \<open>addNode\<close> and \<open>addLink\<close>; at most one link per unordered
  pair of nodes).  \<open>addLink\<close> is idempotent (\<open>addLink_idempotent\<close>), \<open>addNode\<close> is not:
  it has no test for an existing id.  Adding the id \<open>a\<close> twice to the empty graph
  leaves two mesh objects in the scene and two entries in the reverse lookup, where
  adding it once leaves one of each; and after \<open>A\<close> is added again to the graph
  \<open>A - B - C\<close>, \<open>addLink(B, A)\<close> creates a second link whose ends are named \<open>B\<close> and
  \<open>A\<close>.
\<close>

theorem addNode_twice_not_idempotent:
  "nodeToUniqueId added_once = [(0, ''a'')] \<and> scene added_once = [0]
   \<and> nodeToUniqueId added_twice = [(0, ''a''), (1, ''a'')] \<and> scene added_twice = [0, 1]
   \<and> added_twice \<noteq> added_once
   \<and> map (endpointIds relinked) (links relinked) =
       [(Some ''B'', Some ''A''), (Some ''B'', Some ''C''), (Some ''B'', Some ''A'')]"
proof -
  have 1: "nodeToUniqueId added_once = [(0, ''a'')]" "scene added_once = [0]"
    by (simp_all add: added_once_def store_fields)
  have 2: "nodeToUniqueId added_twice = [(0, ''a''), (1, ''a'')]" "scene added_twice = [0, 1]"
    by (simp_all add: added_twice_def added_once_def store_fields)
  have "scene added_twice \<noteq> scene added_once" using 1 2 by simp
  then have 3: "added_twice \<noteq> added_once" by auto
  have 4: "links relinked =
      [\<lparr>link_from = 1, link_to = 0, line = 3\<rparr>, \<lparr>link_from = 1, link_to = 2, line = 4\<rparr>,
       \<lparr>link_from = 1, link_to = 5, line = 6\<rparr>]"
    by (simp add: relinked_def store_fields abc_nodes abc_links abc_next_ref)
  have 5: "map_option userData_uniqueId (heap relinked x) =
      (if x = 5 then Some ''A''
       else if x = 2 then Some ''C'' else if x = 1 then Some ''B''
       else if x = 0 then Some ''A'' else None)" for x
    by (simp add: relinked_def store_fields addNode_uniqueId abc_uniqueId abc_next_ref)
  have "map (endpointIds relinked) (links relinked) =
       [(Some ''B'', Some ''A''), (Some ''B'', Some ''C''), (Some ''B'', Some ''A'')]"
    by (simp add: 4 5 endpointIds_def)
  with 1 2 3 show ?thesis by simp
qed

subsection \<open>Unknown endpoints\<close>

text \<open>
  Claim C9 (invalid references): \<open>addLink\<close> and \<open>removeLink\<close> with an endpoint id that
  is not a key of \<open>nodes\<close> return the state they were given: no link is created or
  removed and no map changes.  Neither function has a failing branch.
\<close>

theorem addLink_removeLink_unknown_endpoint:
  "map_of (nodes G) fromUniqueId = None \<or> map_of (nodes G) toUniqueId = None
   \<Longrightarrow> addLink G fromUniqueId toUniqueId = G \<and> removeLink G fromUniqueId toUniqueId = G"
  by (auto simp: addLink_def removeLink_def split: option.splits)

theorem addLink_removeLink_unknown_endpoint_witness:
  "(map_of (nodes abc_graph) ''A'' = None \<or> map_of (nodes abc_graph) ''Z'' = None)
   \<and> addLink abc_graph ''A'' ''Z'' = abc_graph
   \<and> removeLink abc_graph ''A'' ''Z'' = abc_graph"
  using addLink_removeLink_unknown_endpoint [of abc_graph "''A''" "''Z''"]
  by (simp add: abc_nodes)

subsection \<open>Removing a node\<close>

text \<open>
  Claim C5: \<open>removeNode(id)\<close> on a live id removes the node, removes in the same call
  every link that has the node's mesh as one of its ends and keeps the other links
  in order, and leaves the store of mesh objects as it was, so the position and the
  velocity of every other node are unchanged; the other ids stay in \<open>nodes\<close> with
  the same mesh.
\<close>

theorem removeNode_cascade:
  assumes "map_of (nodes G) uniqueId = Some node"
  shows "map_of (nodes (removeNode G uniqueId)) uniqueId = None
     \<and> links (removeNode G uniqueId)
         = filter (\<lambda>l. link_from l \<noteq> node \<and> link_to l \<noteq> node) (links G)
     \<and> (\<forall>l \<in> set (links G). link_from l = node \<or> link_to l = node
           \<longrightarrow> l \<notin> set (links (removeNode G uniqueId)))
     \<and> heap (removeNode G uniqueId) = heap G
     \<and> (\<forall>other. other \<noteq> uniqueId
           \<longrightarrow> map_of (nodes (removeNode G uniqueId)) other = map_of (nodes G) other)"
  using assms
  by (auto simp: removeNode_def removeLabelForNode_def Let_def touches_def
      AList.delete_conv' split: option.splits)

theorem removeNode_cascade_witness:
  "map_of (nodes abc_graph) ''B'' = Some 1
   \<and> links (removeNode abc_graph ''B'') = []
   \<and> map_of (nodes (removeNode abc_graph ''B'')) ''B'' = None
   \<and> heap (removeNode abc_graph ''B'') = heap abc_graph
   \<and> map_of (nodes (removeNode abc_graph ''B'')) ''A'' = Some 0
   \<and> map_of (nodes (removeNode abc_graph ''B'')) ''C'' = Some 2"
  using removeNode_cascade [of abc_graph "''B''" 1] by (simp add: abc_nodes abc_links)

subsection \<open>Renaming a node\<close>

lemma moveActive_userData:
  "userData_noteTitle (moveActive G m) = userData_noteTitle m"
  "userData_uniqueId (moveActive G m) = userData_uniqueId m"
  by (simp_all add: moveActive_def Let_def)

lemma x_added_eq:
  "x_added =
    GravityGraph_constructor\<lparr>heap := [0 \<mapsto>
         \<lparr>position = zero3, velocity = zero3, force = zero3, mass = 1,
          scale = Vec3 1 1 1, materialColor = white, emissive = white,
          emissiveIntensity = 0.5, userData_noteTitle = ''X'',
          userData_uniqueId = ''X'', userData_filePath = Some ''notes/X.md''\<rparr>],
       next_ref := 1, scene := [0], nodes := [(''X'', 0)],
       nodeFilePaths := [(''X'', ''notes/X.md'')], nodeToUniqueId := [(0, ''X'')],
       colorPulseData := [(''X'',
         \<lparr>phase = 0, speed = 0.5, baseColor = white,
          pulseColor = colorMultiplyScalar white (calculateBrightnessMultiplier white),
          emissiveStrenghtMultiplier = calculateBrightnessMultiplier white\<rparr>)]\<rparr>"
  by (simp add: x_added_def addNode_def GravityGraph_constructor_def Let_def truthy_def
      or_else_def getNodeColor_def)

lemmas frame_eval =
  updateAllNodes_def updateNode_def updatePosition_def updateColor_def updateScale_def
  updateLabel_def cleanupLabels_def nodeConnectionCounts_def modify_def set_add_def
  or_else_def everything_visible_def GravityGraph_constructor_def Let_def moveActive_userData

lemma x_labels: "labels x_graph = [(''X'', \<lparr>textContent = ''X''\<rparr>)]"
  unfolding x_graph_def x_added_eq by (simp add: frame_eval)

lemma x_paths: "nodeFilePaths x_graph = [(''X'', ''notes/X.md'')]"
  unfolding x_graph_def x_added_eq by (simp add: frame_eval)

lemma x_nodes: "nodes x_graph = [(''X'', 0)]"
  unfolding x_graph_def x_added_eq by (simp add: frame_eval)

lemma removeLabel_fields:
  "nodes (removeLabelForNode G k) = nodes G"
  "heap (removeLabelForNode G k) = heap G"
  "links (removeLabelForNode G k) = links G"
  "colorPulseData (removeLabelForNode G k) = colorPulseData G"
  "nodeFilePaths (removeLabelForNode G k) = nodeFilePaths G"
  "labels (removeLabelForNode G k) = AList.delete k (labels G)"
  by (auto simp: removeLabelForNode_def map_of_eq_None_iff split: option.splits)

text \<open>
  Claim C4, as stated (every keyed entry, the file path and the label included, moves
  from the old key to the new key, also when \<open>newPath\<close> is omitted), fails: the note
  \<open>X\<close> has the file path \<open>notes/X.md\<close> and a label; after
  \<open>renameNode('X', 'Y')\<close> without a path the new key \<open>Y\<close> has neither a file path
  nor a label.
\<close>

theorem renameNode_drops_path_and_label:
  "map_of (nodeFilePaths x_graph) ''X'' = Some ''notes/X.md''
   \<and> map_of (nodeFilePaths (renameNode x_graph ''X'' ''Y'' None)) ''Y'' = None
   \<and> map_of (labels x_graph) ''X'' = Some \<lparr>textContent = ''X''\<rparr>
   \<and> map_of (labels (renameNode x_graph ''X'' ''Y'' None)) ''Y'' = None"
  by (simp add: renameNode_def removeLabelForNode_def x_labels x_paths x_nodes Let_def
      truthy_def AList.delete_conv' split: option.splits)

text \<open>
  Claim C4, amended: \<open>renameNode(oldId, newId, newPath?)\<close> on a live \<open>oldId\<close> keeps
  the mesh object, so its position and velocity are exactly what they were, and
  sets its \<open>userData.uniqueId\<close> to \<open>newId\<close>; the entry of \<open>nodes\<close> and the colour
  pulse entry move from the old key to the new key; the file path entry of the old
  key is removed and, when \<open>newPath\<close> is given, \<open>newPath\<close> is stored under the new
  key; the label of the old key is removed, not moved; the list of links is
  unchanged, so every link that had the node as an end still holds the same mesh,
  which is now registered under \<open>newId\<close> and carries \<open>newId\<close>.
\<close>

theorem renameNode_moves_node:
  assumes "map_of (nodes G) oldUniqueId = Some node"
  shows "map_of (nodes (renameNode G oldUniqueId newUniqueId newFilePath)) newUniqueId
           = Some node
    \<and> (oldUniqueId \<noteq> newUniqueId \<longrightarrow>
         map_of (nodes (renameNode G oldUniqueId newUniqueId newFilePath)) oldUniqueId = None)
    \<and> map_option position (heap (renameNode G oldUniqueId newUniqueId newFilePath) node)
         = map_option position (heap G node)
    \<and> map_option velocity (heap (renameNode G oldUniqueId newUniqueId newFilePath) node)
         = map_option velocity (heap G node)
    \<and> map_option userData_uniqueId
           (heap (renameNode G oldUniqueId newUniqueId newFilePath) node)
         = map_option (\<lambda>_. newUniqueId) (heap G node)
    \<and> (\<forall>pulseData. map_of (colorPulseData G) oldUniqueId = Some pulseData \<longrightarrow>
         map_of (colorPulseData (renameNode G oldUniqueId newUniqueId newFilePath))
             newUniqueId = Some pulseData
         \<and> (oldUniqueId \<noteq> newUniqueId \<longrightarrow>
             map_of (colorPulseData (renameNode G oldUniqueId newUniqueId newFilePath))
               oldUniqueId = None))
    \<and> (\<forall>path. newFilePath = Some path \<and> path \<noteq> [] \<longrightarrow>
         map_of (nodeFilePaths (renameNode G oldUniqueId newUniqueId newFilePath))
             newUniqueId = Some path)
    \<and> (oldUniqueId \<noteq> newUniqueId \<longrightarrow>
         map_of (nodeFilePaths (renameNode G oldUniqueId newUniqueId newFilePath))
             oldUniqueId = None)
    \<and> labels (renameNode G oldUniqueId newUniqueId newFilePath)
         = AList.delete oldUniqueId (labels G)
    \<and> links (renameNode G oldUniqueId newUniqueId newFilePath) = links G"
  using assms
  by (auto simp: renameNode_def removeLabel_fields Let_def truthy_def AList.delete_conv'
      AList.update_conv' option.map_comp comp_def split: option.splits)

theorem renameNode_moves_node_witness:
  "map_of (nodes abc_graph) ''B'' = Some 1
   \<and> map_of (nodes (renameNode abc_graph ''B'' ''D'' (Some ''notes/D.md''))) ''D'' = Some 1
   \<and> map_of (nodes (renameNode abc_graph ''B'' ''D'' (Some ''notes/D.md''))) ''B'' = None
   \<and> map_option position (heap (renameNode abc_graph ''B'' ''D'' (Some ''notes/D.md'')) 1)
       = map_option position (heap abc_graph 1)
   \<and> map_option velocity (heap (renameNode abc_graph ''B'' ''D'' (Some ''notes/D.md'')) 1)
       = map_option velocity (heap abc_graph 1)
   \<and> map_of (nodeFilePaths (renameNode abc_graph ''B'' ''D'' (Some ''notes/D.md''))) ''D''
       = Some ''notes/D.md''
   \<and> links (renameNode abc_graph ''B'' ''D'' (Some ''notes/D.md'')) = links abc_graph"
  using renameNode_moves_node [of abc_graph "''B''" 1 "''D''" "Some ''notes/D.md''"]
  by (simp add: abc_nodes)

section \<open>Properties of the Physics Engine\<close>

subsection \<open>The iterations of the node loop are independent\<close>

lemma agree_refl: "agree uid node G G"
  by (simp add: agree_def)

lemma agree_trans: "agree uid node G G' \<Longrightarrow> agree uid node G' G'' \<Longrightarrow> agree uid node G G''"
  by (simp add: agree_def)

lemma agree_physics:
  assumes "agree uid node G G'"
  shows "moveActive G = moveActive G'" "shouldFreeze G = shouldFreeze G'"
    "shouldUnfreeze G = shouldUnfreeze G'" "calcLinkScale G = calcLinkScale G'"
  using assms
  by (auto simp: agree_def fun_eq_iff moveActive_def shouldFreeze_def shouldUnfreeze_def
      calcLinkScale_def integratedVelocity_def Let_def)

lemma updatePosition_fields:
  "forces (updatePosition u n G) = forces G" "maxSpeed (updatePosition u n G) = maxSpeed G"
  "freeze (updatePosition u n G) = freeze G"
  "velocityTreshold (updatePosition u n G) = velocityTreshold G"
  "baseNodeScale (updatePosition u n G) = baseNodeScale G"
  "linkScaleMultiplier (updatePosition u n G) = linkScaleMultiplier G"
  "colorPulseData (updatePosition u n G) = colorPulseData G"
  "x \<noteq> n \<Longrightarrow> heap (updatePosition u n G) x = heap G x"
  "k \<noteq> u \<Longrightarrow> k \<in> set (frozenNodes (updatePosition u n G)) \<longleftrightarrow> k \<in> set (frozenNodes G)"
  by (auto simp: updatePosition_def set_add_def split: option.splits)

lemma updateColor_fields:
  "forces (updateColor u n G) = forces G" "maxSpeed (updateColor u n G) = maxSpeed G"
  "freeze (updateColor u n G) = freeze G"
  "velocityTreshold (updateColor u n G) = velocityTreshold G"
  "baseNodeScale (updateColor u n G) = baseNodeScale G"
  "linkScaleMultiplier (updateColor u n G) = linkScaleMultiplier G"
  "frozenNodes (updateColor u n G) = frozenNodes G"
  "x \<noteq> n \<Longrightarrow> heap (updateColor u n G) x = heap G x"
  "k \<noteq> u \<Longrightarrow> map_of (colorPulseData (updateColor u n G)) k = map_of (colorPulseData G) k"
  by (auto simp: updateColor_def modify_def Let_def AList.update_conv' split: option.splits)

lemma updateScale_fields:
  "forces (updateScale c u n G) = forces G" "maxSpeed (updateScale c u n G) = maxSpeed G"
  "freeze (updateScale c u n G) = freeze G"
  "velocityTreshold (updateScale c u n G) = velocityTreshold G"
  "baseNodeScale (updateScale c u n G) = baseNodeScale G"
  "linkScaleMultiplier (updateScale c u n G) = linkScaleMultiplier G"
  "frozenNodes (updateScale c u n G) = frozenNodes G"
  "colorPulseData (updateScale c u n G) = colorPulseData G"
  "x \<noteq> n \<Longrightarrow> heap (updateScale c u n G) x = heap G x"
  by (auto simp: updateScale_def modify_def Let_def)

lemma updateLabel_agree: "agree uid node (fst (updateLabel cam u n Gv)) (fst Gv)"
  by (auto simp: updateLabel_def agree_def Let_def split: option.splits)

lemma nodeIteration_other:
  assumes "u \<noteq> uid" "n \<noteq> node"
  shows "agree uid node (nodeIteration counts u n G) G"
  using assms
  by (simp add: agree_def nodeIteration_def updatePosition_fields updateColor_fields
      updateScale_fields)

lemma updateNode_iteration:
  "agree uid node (fst (updateNode counts cam (u, n) Gv)) (nodeIteration counts u n (fst Gv))"
  using updateLabel_agree [of uid node cam u n "(nodeIteration counts u n (fst Gv), snd Gv)"]
  by (simp add: updateNode_def nodeIteration_def Let_def)

lemma updateNode_other:
  assumes "u \<noteq> uid" "n \<noteq> node"
  shows "agree uid node (fst (updateNode counts cam (u, n) Gv)) (fst Gv)"
  using updateNode_iteration nodeIteration_other [OF assms] agree_trans by blast

lemma nodeIteration_agree:
  assumes "agree uid node G G'"
  shows "agree uid node (nodeIteration counts uid node G) (nodeIteration counts uid node G')"
proof -
  note ph = agree_physics [OF assms]
  have h: "heap G node = heap G' node"
    and f: "uid \<in> set (frozenNodes G) \<longleftrightarrow> uid \<in> set (frozenNodes G')"
    and fr: "freeze G = freeze G'"
    using assms by (simp_all add: agree_def)
  have 1: "agree uid node (updatePosition uid node G) (updatePosition uid node G')"
    using assms h f fr ph
    by (auto simp: agree_def updatePosition_def set_add_def split: option.splits)
  have 2: "agree uid node (updateColor uid node A) (updateColor uid node B)"
    if "agree uid node A B" for A B
    using that
    by (auto simp: agree_def updateColor_def modify_def Let_def AList.update_conv'
        split: option.splits)
  have 3: "agree uid node (updateScale counts uid node A) (updateScale counts uid node B)"
    if "agree uid node A B" for A B
    using that agree_physics(4) [OF that]
    by (auto simp: agree_def updateScale_def modify_def Let_def)
  show ?thesis unfolding nodeIteration_def by (intro 3 2 1)
qed

lemma fold_updateNode_others:
  assumes "uid \<notin> fst ` set ns" "node \<notin> snd ` set ns"
  shows "agree uid node (fst (fold (updateNode counts cam) ns Gv)) (fst Gv)"
  using assms
proof (induction ns arbitrary: Gv)
  case Nil
  show ?case by (simp add: agree_refl)
next
  case (Cons e ns)
  obtain u n where e: "e = (u, n)" by (cases e)
  from Cons.prems e have "u \<noteq> uid" "n \<noteq> node" by auto
  then have "agree uid node (fst (updateNode counts cam e Gv)) (fst Gv)"
    unfolding e by (rule updateNode_other)
  moreover have
    "agree uid node (fst (fold (updateNode counts cam) ns (updateNode counts cam e Gv)))
       (fst (updateNode counts cam e Gv))"
    using Cons.prems by (intro Cons.IH) auto
  ultimately show ?case using agree_trans by fastforce
qed

lemma fold_updateNode_own:
  assumes "distinct (map fst ns)" "distinct (map snd ns)" "(uid, node) \<in> set ns"
  shows "agree uid node (fst (fold (updateNode counts cam) ns Gv))
           (nodeIteration counts uid node (fst Gv))"
  using assms
proof (induction ns arbitrary: Gv)
  case Nil
  then show ?case by simp
next
  case (Cons e ns)
  obtain u n where e: "e = (u, n)" by (cases e)
  let ?Gv = "updateNode counts cam e Gv"
  show ?case
  proof (cases "e = (uid, node)")
    case True
    with Cons.prems have "uid \<notin> fst ` set ns" "node \<notin> snd ` set ns" by auto
    then have "agree uid node (fst (fold (updateNode counts cam) ns ?Gv)) (fst ?Gv)"
      by (rule fold_updateNode_others)
    moreover have "agree uid node (fst ?Gv) (nodeIteration counts uid node (fst Gv))"
      unfolding True by (rule updateNode_iteration)
    ultimately show ?thesis using agree_trans by fastforce
  next
    case False
    with Cons.prems have mem: "(uid, node) \<in> set ns" by auto
    with Cons.prems e have "u \<noteq> uid" "n \<noteq> node" by force+
    then have "agree uid node (fst ?Gv) (fst Gv)" unfolding e by (rule updateNode_other)
    then have "agree uid node (nodeIteration counts uid node (fst ?Gv))
        (nodeIteration counts uid node (fst Gv))"
      by (rule nodeIteration_agree)
    moreover have "agree uid node (fst (fold (updateNode counts cam) ns ?Gv))
        (nodeIteration counts uid node (fst ?Gv))"
      using Cons.prems mem by (intro Cons.IH) auto
    ultimately show ?thesis using agree_trans by fastforce
  qed
qed

lemma updateAllNodes_agree:
  assumes "distinct (map fst (nodes G))" "distinct (map snd (nodes G))"
    and "(uid, node) \<in> set (nodes G)"
  shows "agree uid node (updateAllNodes G cam)
           (nodeIteration (nodeConnectionCounts G) uid node G)"
proof -
  have "agree uid node (cleanupLabels cam v A) A" for v A
    by (simp add: cleanupLabels_def agree_def split: option.splits)
  then show ?thesis
    using fold_updateNode_own [OF assms, of "nodeConnectionCounts G" cam "(G, [])"] agree_trans
    by (fastforce simp: updateAllNodes_def Let_def)
qed

subsection \<open>One iteration\<close>

lemma nodeIteration_frozen:
  assumes "heap G node = Some m"
  shows "uid \<in> set (frozenNodes (nodeIteration counts uid node G)) \<longleftrightarrow>
     (if uid \<in> set (frozenNodes G) then \<not> shouldUnfreeze G m
      else freeze G \<and> shouldFreeze G m)"
  using assms
  by (auto simp: nodeIteration_def updateScale_fields updateColor_fields updatePosition_def
      set_add_def)

lemma nodeIteration_kinematics:
  assumes "heap G node = Some m"
  shows "map_option position (heap (nodeIteration counts uid node G) node)
       = Some (position (if uid \<in> set (frozenNodes G) then m else moveActive G m))"
    and "map_option velocity (heap (nodeIteration counts uid node G) node)
       = Some (velocity (if uid \<in> set (frozenNodes G) then m else moveActive G m))"
  using assms
  by (auto simp: nodeIteration_def updateScale_def updateColor_def updatePosition_def
      modify_def Let_def split: option.splits)

lemma nodeIteration_scale:
  assumes "heap G node = Some m"
  shows "map_option scale (heap (nodeIteration counts uid node G) node)
       = Some (let s = calcLinkScale G (count_get counts uid) in Vec3 s s s)"
  using assms
  by (auto simp: nodeIteration_def updateScale_def updateColor_def updatePosition_def
      modify_def Let_def calcLinkScale_def split: option.splits)

lemma updateAllNodes_frozen:
  assumes "distinct (map fst (nodes G))" "distinct (map snd (nodes G))"
    and "(uid, node) \<in> set (nodes G)" and "heap G node = Some m"
  shows "uid \<in> set (frozenNodes (updateAllNodes G cam)) \<longleftrightarrow>
     (if uid \<in> set (frozenNodes G) then \<not> shouldUnfreeze G m
      else freeze G \<and> shouldFreeze G m)"
  using updateAllNodes_agree [OF assms(1-3), of cam] nodeIteration_frozen [OF assms(4)]
  by (simp add: agree_def)

lemma updateAllNodes_heap:
  assumes "distinct (map fst (nodes G))" "distinct (map snd (nodes G))"
    and "(uid, node) \<in> set (nodes G)"
  shows "heap (updateAllNodes G cam) node
       = heap (nodeIteration (nodeConnectionCounts G) uid node G) node"
  using updateAllNodes_agree [OF assms(1-3), of cam] by (simp add: agree_def)

lemma updateAllNodes_scale:
  assumes "distinct (map fst (nodes G))" "distinct (map snd (nodes G))"
    and "(uid, node) \<in> set (nodes G)" and "heap G node = Some m"
  shows "map_option scale (heap (updateAllNodes G cam) node)
       = Some (let s = calcLinkScale G (count_get (nodeConnectionCounts G) uid) in Vec3 s s s)"
  using updateAllNodes_heap [OF assms(1-3), of cam]
    nodeIteration_scale [OF assms(4), of "nodeConnectionCounts G" uid]
  by simp

subsection \<open>The drifting note\<close>

lemma drift_start_fields:
  "nodes (drift_start d) = [(''a'', 0)]" "frozenNodes (drift_start d) = []"
  "freeze (drift_start d)" "links (drift_start d) = []"
  "forces (drift_start d) =
     \<lparr>repulsion = 0.8, friction = 0.05, centerAttraction = 0.001, linkStrength = 0.03\<rparr>"
  "maxSpeed (drift_start d) = 2" "velocityTreshold (drift_start d) = 1 / 1000"
  "heap (drift_start d) 0 = Some ((drift_mesh d)\<lparr>force := Vec3 0 0 0\<rparr>)"
  by (simp_all add: drift_start_def place_def setFreeze_def addNode_def
      GravityGraph_constructor_def Let_def truthy_def or_else_def getNodeColor_def modify_def
      drift_mesh_def zero3_def)

lemma drift_fields:
  "nodes (drift d) = [(''a'', 0)]" "frozenNodes (drift d) = []" "freeze (drift d)"
  "links (drift d) = []"
  "forces (drift d) =
     \<lparr>repulsion = 0.8, friction = 0.05, centerAttraction = 0.001, linkStrength = 0.03\<rparr>"
  "maxSpeed (drift d) = 2" "velocityTreshold (drift d) = 1 / 1000"
  "heap (drift d) 0 = Some (drift_mesh d)"
  by (simp_all add: drift_def drift_start_fields modify_def drift_mesh_def)

lemma drift_forces: "calculateForces (drift_start d) = Some (drift d)"
  by (simp add: calculateForces_def drift_start_fields drift_def Let_def resetForce_def
      centerPull_def modify_def drift_mesh_def fun_eq_iff)

lemma drift_speed: "lengthSq (integratedVelocity (drift d) (drift_mesh d)) = 0"
  by (simp add: integratedVelocity_def applyFriction_def limitSpeed_def length3_def Let_def
      drift_fields drift_mesh_def)

lemma drift_force: "force (drift_mesh d) = Vec3 (- d) 0 0"
  by (simp add: drift_mesh_def)

lemma drift_decision: "shouldFreeze (drift d) (drift_mesh d) \<longleftrightarrow> d * d < 1 / 10000"
  by (simp add: shouldFreeze_def drift_speed drift_force Let_def drift_fields)

subsection \<open>Freezing and unfreezing\<close>

text \<open>
  Claim C3, as stated (an active node freezes exactly when its squared speed and its
  squared net force are both under the settle threshold), fails, whether the
  threshold for the squared force is read as the square of \<open>velocityTreshold\<close> or as
  \<open>velocityTreshold\<close> itself.  With the default threshold \<open>0.001\<close>: a note whose
  velocity after integration is zero and whose force has the square \<open>0.000025\<close>,
  which is not under \<open>0.000001\<close>, is frozen by the tick; and one whose velocity
  after integration is zero and whose force has the square \<open>0.0004\<close>, which is
  under \<open>0.001\<close>, is not.
\<close>

theorem freeze_threshold_is_scaled:
  "tick (drift_start (1 / 200)) None = Some (updateAllNodes (drift (1 / 200)) None)
   \<and> freeze (drift (1 / 200)) \<and> ''a'' \<notin> set (frozenNodes (drift (1 / 200)))
   \<and> map_option force (heap (drift (1 / 200)) 0) = Some (Vec3 (- (1 / 200)) 0 0)
   \<and> lengthSq (integratedVelocity (drift (1 / 200)) (drift_mesh (1 / 200))) = 0
   \<and> \<not> lengthSq (Vec3 (- (1 / 200)) 0 0)
         < velocityTreshold (drift (1 / 200)) * velocityTreshold (drift (1 / 200))
   \<and> ''a'' \<in> set (frozenNodes (updateAllNodes (drift (1 / 200)) None))
   \<and> tick (drift_start (1 / 50)) None = Some (updateAllNodes (drift (1 / 50)) None)
   \<and> freeze (drift (1 / 50)) \<and> ''a'' \<notin> set (frozenNodes (drift (1 / 50)))
   \<and> map_option force (heap (drift (1 / 50)) 0) = Some (Vec3 (- (1 / 50)) 0 0)
   \<and> lengthSq (integratedVelocity (drift (1 / 50)) (drift_mesh (1 / 50))) = 0
   \<and> lengthSq (Vec3 (- (1 / 50)) 0 0) < velocityTreshold (drift (1 / 50))
   \<and> ''a'' \<notin> set (frozenNodes (updateAllNodes (drift (1 / 50)) None))"
proof -
  have frozen:
    "''a'' \<in> set (frozenNodes (updateAllNodes (drift d) None)) \<longleftrightarrow> d * d < 1 / 10000" for d
    using updateAllNodes_frozen [of "drift d" "''a''" 0 "drift_mesh d" None]
    by (simp add: drift_fields drift_decision)
  show ?thesis
    by (simp add: tick_def drift_forces drift_fields frozen drift_speed drift_force)
qed

text \<open>
  Claim C3, amended.  In one run of \<open>updateAllNodes\<close>, for a node of a graph whose
  ids and mesh objects are pairwise different: a node that is not frozen becomes
  frozen exactly when the freeze policy is enabled, the squared speed of its velocity
  after integration (force added, friction, speed limit) is under the square of
  \<open>velocityTreshold\<close> and its squared force is under 100 times that square; a frozen
  node keeps its position and its velocity (it is left out of the integration), and
  it is unfrozen by that run exactly when its squared force exceeds 100 times the
  square of \<open>velocityTreshold\<close>.
\<close>

theorem freeze_state_machine:
  assumes "distinct (map fst (nodes G))" "distinct (map snd (nodes G))"
    and "(uid, node) \<in> set (nodes G)" and "heap G node = Some m"
  shows "(uid \<notin> set (frozenNodes G) \<longrightarrow>
           (uid \<in> set (frozenNodes (updateAllNodes G cam)) \<longleftrightarrow>
              freeze G
              \<and> lengthSq (integratedVelocity G m) < velocityTreshold G * velocityTreshold G
              \<and> lengthSq (force m) < velocityTreshold G * velocityTreshold G * 100))
       \<and> (uid \<in> set (frozenNodes G) \<longrightarrow>
             map_option position (heap (updateAllNodes G cam) node) = Some (position m)
           \<and> map_option velocity (heap (updateAllNodes G cam) node) = Some (velocity m)
           \<and> (uid \<notin> set (frozenNodes (updateAllNodes G cam)) \<longleftrightarrow>
                lengthSq (force m) > velocityTreshold G * velocityTreshold G * 100))"
  using updateAllNodes_frozen [OF assms, of cam] updateAllNodes_heap [OF assms(1-3), of cam]
    nodeIteration_kinematics [OF assms(4), of "nodeConnectionCounts G" uid]
  by (auto simp: shouldFreeze_def shouldUnfreeze_def Let_def)

theorem freeze_state_machine_witness:
  "distinct (map fst (nodes (drift (1 / 200)))) \<and> distinct (map snd (nodes (drift (1 / 200))))
   \<and> (''a'', 0) \<in> set (nodes (drift (1 / 200)))
   \<and> heap (drift (1 / 200)) 0 = Some (drift_mesh (1 / 200))
   \<and> ''a'' \<notin> set (frozenNodes (drift (1 / 200)))
   \<and> ''a'' \<in> set (frozenNodes (updateAllNodes (drift (1 / 200)) None))"
  using freeze_state_machine [of "drift (1 / 200)" "''a''" 0 "drift_mesh (1 / 200)" None]
  by (simp add: drift_fields drift_speed drift_force)

subsection \<open>Node scale\<close>

text \<open>The tally of \<open>updateAllNodes\<close> for an id is the number of link ends that the
  reverse lookup \<open>nodeToUniqueId\<close> maps to it.\<close>

lemma countLink_ends:
  "count_get (countLink n2i l counts) uid = count_get counts uid + linkEnds n2i uid l"
  by (auto simp: countLink_def linkEnds_def count_get_def Let_def AList.update_conv'
      split: option.splits)

lemma fold_countLink_ends:
  "count_get (fold (countLink n2i) ls counts) uid
     = count_get counts uid + sum_list (map (linkEnds n2i uid) ls)"
  by (induction ls arbitrary: counts) (simp_all add: countLink_ends)

lemma connection_count_ends:
  "count_get (nodeConnectionCounts G) uid
     = sum_list (map (linkEnds (nodeToUniqueId G) uid) (links G))"
  by (simp add: nodeConnectionCounts_def fold_countLink_ends) (simp add: count_get_def)

lemma abc_counts: "nodeConnectionCounts abc_graph = [(''B'', 2), (''A'', 1), (''C'', 1)]"
  by (simp add: nodeConnectionCounts_def countLink_def count_get_def abc_links
      abc_nodeToUniqueId Let_def)

text \<open>The scale that \<open>updateAllNodes\<close> writes is \<open>calcLinkScale\<close> of the tally.\<close>

lemma scale_of_tally:
  assumes "distinct (map fst (nodes G))" "distinct (map snd (nodes G))"
    and "(uid, node) \<in> set (nodes G)" and "heap G node \<noteq> None"
  shows "map_option scale (heap (updateAllNodes G cam) node) =
     Some (if count_get (nodeConnectionCounts G) uid \<le> 1 then Vec3 1 1 1
           else Vec3
             (baseNodeScale G
                + real (count_get (nodeConnectionCounts G) uid) * linkScaleMultiplier G)
             (baseNodeScale G
                + real (count_get (nodeConnectionCounts G) uid) * linkScaleMultiplier G)
             (baseNodeScale G
                + real (count_get (nodeConnectionCounts G) uid) * linkScaleMultiplier G))"
proof -
  from assms(4) obtain m where "heap G node = Some m" by auto
  from updateAllNodes_scale [OF assms(1-3) this, of cam]
  show ?thesis by (auto simp: calcLinkScale_def Let_def)
qed

text \<open>\<open>renameNode\<close> does not write the reverse lookup, so the tally stays with the
  old id.\<close>

lemma renamed_abc_fields:
  "nodes renamed_abc = [(''A'', 0), (''C'', 2), (''D'', 1)]"
  "links renamed_abc = links abc_graph"
  "nodeToUniqueId renamed_abc = nodeToUniqueId abc_graph"
  "baseNodeScale renamed_abc = baseNodeScale abc_graph"
  "linkScaleMultiplier renamed_abc = linkScaleMultiplier abc_graph"
  "heap renamed_abc 1 \<noteq> None"
  using abc_heap [of 1]
  by (simp_all add: renamed_abc_def renameNode_def Let_def removeLabelForNode_def abc_nodes
      truthy_def split: option.splits)

lemma renamed_node_counts_zero:
  "count_get (nodeConnectionCounts abc_graph) ''B'' = 2
   \<and> count_get (nodeConnectionCounts renamed_abc) ''B'' = 2
   \<and> count_get (nodeConnectionCounts renamed_abc) ''D'' = 0"
  by (simp add: connection_count_ends linkEnds_def abc_links abc_nodeToUniqueId
      renamed_abc_fields)

text \<open>
  Claim C10 (node scale: 1 for a connection count of 0 or 1, and
  \<open>baseNodeScale + connectionCount * linkScaleMultiplier\<close> for a count of at least
  2) fails after a rename.  In the graph \<open>A - B - C\<close> the note \<open>B\<close> has two links and
  \<open>updateAllNodes\<close> gives its mesh object the scale \<open>1 + 2 * 0.1 = 1.2\<close>.  After
  \<open>renameNode('B', 'D', 'notes/D.md')\<close> the same mesh object is registered as \<open>D\<close> and
  the same two links hold it (\<open>getNodeConnectionCount\<close> is 2), but the reverse
  lookup still maps it to \<open>B\<close>: the tally of \<open>D\<close> is 0 and \<open>updateAllNodes\<close> gives the
  mesh object the scale 1, with or without a camera.
\<close>

theorem renamed_node_scale_ignores_links:
  "nodes abc_graph = [(''A'', 0), (''B'', 1), (''C'', 2)]
   \<and> getNodeConnectionCount abc_graph ''B'' = 2
   \<and> map_option scale (heap (updateAllNodes abc_graph None) 1)
       = Some (Vec3 (6 / 5) (6 / 5) (6 / 5))
   \<and> nodes renamed_abc = [(''A'', 0), (''C'', 2), (''D'', 1)]
   \<and> links renamed_abc =
       [\<lparr>link_from = 1, link_to = 0, line = 3\<rparr>, \<lparr>link_from = 1, link_to = 2, line = 4\<rparr>]
   \<and> getNodeConnectionCount renamed_abc ''D'' = 2
   \<and> baseNodeScale renamed_abc + 2 * linkScaleMultiplier renamed_abc = 6 / 5
   \<and> nodeToUniqueId renamed_abc = [(0, ''A''), (1, ''B''), (2, ''C'')]
   \<and> count_get (nodeConnectionCounts renamed_abc) ''D'' = 0
   \<and> map_option scale (heap (updateAllNodes renamed_abc None) 1) = Some (Vec3 1 1 1)
   \<and> map_option scale (heap (updateAllNodes renamed_abc (Some everything_visible)) 1)
       = Some (Vec3 1 1 1)"
proof -
  have 1: "getNodeConnectionCount abc_graph ''B'' = 2"
    "getNodeConnectionCount renamed_abc ''D'' = 2"
    by (simp_all add: getNodeConnectionCount_def renamed_abc_fields abc_nodes abc_links
        touches_def)
  have 2: "map_option scale (heap (updateAllNodes abc_graph None) 1)
       = Some (Vec3 (6 / 5) (6 / 5) (6 / 5))"
    using scale_of_tally [of abc_graph "''B''" 1 None] abc_heap [of 1]
    by (simp add: abc_nodes abc_counts count_get_def abc_scales)
  have 3: "map_option scale (heap (updateAllNodes renamed_abc cam) 1) = Some (Vec3 1 1 1)"
    for cam
    using scale_of_tally [of renamed_abc "''D''" 1 cam] renamed_node_counts_zero
      renamed_abc_fields(6)
    by (simp add: renamed_abc_fields(1-5))
  show ?thesis
    using 1 2 3 renamed_node_counts_zero
    by (simp add: renamed_abc_fields abc_nodes abc_links abc_nodeToUniqueId abc_scales)
qed

subsection \<open>Repulsion\<close>

lemma length3_multiplyScalar: "length3 (multiplyScalar v s) = \<bar>s\<bar> * length3 v"
proof (cases v)
  case (Vec3 a b c)
  have "a * s * (a * s) + b * s * (b * s) + c * s * (c * s) = s\<^sup>2 * (a * a + b * b + c * c)"
    by (simp add: power2_eq_square algebra_simps)
  then show ?thesis
    by (simp add: Vec3 length3_def real_sqrt_mult)
qed

lemma length3_normalize: "length3 v \<noteq> 0 \<Longrightarrow> length3 (normalize v) = 1"
proof -
  assume nz: "length3 v \<noteq> 0"
  have "0 \<le> length3 v" by (cases v) (simp add: length3_def)
  with nz show ?thesis by (simp add: normalize_def length3_multiplyScalar)
qed

lemma distanceTo_length3: "distanceTo a b = length3 (sub3 a b)"
  by (simp add: distanceTo_def length3_def)

lemma repulsionPair_far:
  assumes "\<not> separation h nodeA nodeB < 0.1"
  shows "repulsionPair rep nodeA nodeB h =
     Some (modify nodeB (force_sub (repulsionDirection rep h nodeA nodeB))
            (modify nodeA (force_add (repulsionDirection rep h nodeA nodeB)) h))"
  using assms
  by (auto simp: repulsionPair_def Let_def js_divide_def separation_def repulsionDirection_def)

lemma repulsionPair_near:
  "separation h nodeA nodeB < 0.1 \<Longrightarrow> repulsionPair rep nodeA nodeB h = Some h"
  by (simp add: repulsionPair_def separation_def)

lemma repulsionPair_total: "repulsionPair rep nodeA nodeB h \<noteq> None"
  by (cases "separation h nodeA nodeB < 0.1") (simp_all add: repulsionPair_far repulsionPair_near)

lemma repulsionRow_total: "repulsionRow rep nodeA ns h \<noteq> None"
proof (induction ns arbitrary: h)
  case Nil
  show ?case by simp
next
  case (Cons nodeB ns)
  obtain h' where "repulsionPair rep nodeA nodeB h = Some h'"
    using repulsionPair_total [of rep nodeA nodeB h] by auto
  with Cons show ?case by simp
qed

lemma repulsionAll_total: "repulsionAll rep ns h \<noteq> None"
proof (induction ns arbitrary: h)
  case Nil
  show ?case by simp
next
  case (Cons nodeA ns)
  obtain h' where "repulsionRow rep nodeA ns h = Some h'"
    using repulsionRow_total [of rep nodeA ns h] by auto
  with Cons show ?case by simp
qed

lemma calculateForces_total: "calculateForces G \<noteq> None"
proof -
  obtain h' where "repulsionAll (repulsion (forces G)) (map snd (nodes G))
      (fold resetForce (map snd (nodes G)) (heap G)) = Some h'"
    using repulsionAll_total by blast
  then show ?thesis by (simp add: calculateForces_def Let_def)
qed

lemma repulsion_magnitude:
  assumes "\<not> separation h nodeA nodeB < 0.1"
  shows "length3 (repulsionDirection rep h nodeA nodeB)
     = \<bar>rep\<bar> / (separation h nodeA nodeB * separation h nodeA nodeB)"
proof -
  have "length3 (sub3 (position_of h nodeA) (position_of h nodeB)) \<noteq> 0"
    using assms by (simp add: separation_def distanceTo_length3)
  then show ?thesis
    by (simp add: repulsionDirection_def length3_multiplyScalar length3_normalize)
qed

lemma two_bodies_positions:
  "position_of (two_bodies q) 0 = Vec3 0 0 0" "position_of (two_bodies q) 1 = q"
  "position_of (two_bodies q) (Suc 0) = q"
  by (simp_all add: two_bodies_def position_of_def body_def)

text \<open>The repulsion loops in closed form: the inner loop body adds the force of the
  pair to one end and subtracts it from the other, and the two loops together add
  to every mesh object the sum of the forces of its pairs with all other nodes.\<close>

lemma add3_zero: "add3 v (Vec3 0 0 0) = v" "add3 (Vec3 0 0 0) v = v"
  by (cases v; simp)+

lemma add3_assoc: "add3 (add3 u v) w = add3 u (add3 v w)"
  by (cases u; cases v; cases w) simp

lemma sub3_neg3: "sub3 u v = add3 u (neg3 v)"
  by (cases u; cases v) simp

lemma neg3_zero: "neg3 (Vec3 0 0 0) = Vec3 0 0 0"
  by simp

lemma sum3_simps: "sum3 [] = Vec3 0 0 0" "sum3 (v # vs) = add3 v (sum3 vs)"
  by (simp_all add: sum3_def)

lemma force_add_zero: "force_add (Vec3 0 0 0) m = m"
  by (simp add: force_add_def add3_zero)

lemma pushed_zero: "pushed (\<lambda>x. Vec3 0 0 0) h = h"
proof -
  have "force_add (Vec3 0 0 0) = id" by (simp add: fun_eq_iff force_add_zero)
  then show ?thesis by (simp add: pushed_def option.map_id)
qed

lemma force_sub_neg: "force_sub d = force_add (neg3 d)"
  by (simp add: force_sub_def force_add_def sub3_neg3 fun_eq_iff)

lemma force_add_add: "force_add e (force_add d m) = force_add (add3 d e) m"
  by (simp add: force_add_def add3_assoc)

lemma pushed_pushed: "pushed e (pushed d h) = pushed (\<lambda>x. add3 (d x) (e x)) h"
  by (auto simp: pushed_def fun_eq_iff option.map_comp comp_def force_add_add)

lemma position_of_pushed: "position_of (pushed d h) = position_of h"
  by (auto simp: pushed_def position_of_def force_add_def fun_eq_iff split: option.splits)

lemma pairForce_pushed: "pairForce rep (pushed d h) = pairForce rep h"
  by (simp add: pairForce_def separation_def repulsionDirection_def position_of_pushed fun_eq_iff)

lemma netRepulsion_pushed: "netRepulsion rep (pushed d h) = netRepulsion rep h"
  by (simp add: netRepulsion_def pairForce_pushed fun_eq_iff)

lemma sub3_swap: "sub3 v u = neg3 (sub3 u v)"
  by (cases u; cases v) simp

lemma lengthSq_neg3: "lengthSq (neg3 v) = lengthSq v"
  by (cases v) simp

lemma multiplyScalar_neg3: "multiplyScalar (neg3 v) s = neg3 (multiplyScalar v s)"
  by (cases v) simp

lemma separation_commute: "separation h b a = separation h a b"
  using lengthSq_neg3 [of "sub3 (position_of h a) (position_of h b)"]
  by (simp add: separation_def distanceTo_def sub3_swap [of "position_of h b" "position_of h a"])

lemma repulsionDirection_swap:
  "repulsionDirection rep h b a = neg3 (repulsionDirection rep h a b)"
proof -
  have "normalize (neg3 v) = neg3 (normalize v)" for v
    by (simp add: normalize_def length3_def lengthSq_neg3 multiplyScalar_neg3)
  then show ?thesis
    by (simp add: repulsionDirection_def separation_commute [of h b a]
        sub3_swap [of "position_of h b" "position_of h a"] multiplyScalar_neg3)
qed

lemma pairForce_swap: "pairForce rep h b a = neg3 (pairForce rep h a b)"
  by (simp add: pairForce_def separation_commute [of h b a] repulsionDirection_swap [of rep h b a])

lemma repulsionPair_pushed:
  assumes "a \<noteq> b"
  shows "repulsionPair rep a b h = Some (pushed (pairDelta (pairForce rep h a b) a b) h)"
proof (cases "separation h a b < 0.1")
  case True
  have "pushed (\<lambda>x. Vec3 0 0 0) h = h" by (rule pushed_zero)
  moreover have "pairDelta (Vec3 0 0 0) a b = (\<lambda>x. Vec3 0 0 0)"
    by (auto simp: pairDelta_def fun_eq_iff)
  ultimately show ?thesis using True by (simp add: repulsionPair_near pairForce_def)
next
  case False
  have id: "force_add (Vec3 0 0 0) = id" by (simp add: fun_eq_iff force_add_zero)
  have "modify b (force_sub d) (modify a (force_add d) h) = pushed (pairDelta d a b) h" for d
    using assms
    by (auto simp: modify_def pushed_def pairDelta_def fun_eq_iff force_sub_neg id
        option.map_id)
  then show ?thesis using False by (simp add: repulsionPair_far pairForce_def)
qed

lemma repulsionRow_pushed:
  assumes "a \<notin> set bs" "distinct bs"
  shows "repulsionRow rep a bs h = Some (pushed (rowDelta rep h a bs) h)"
  using assms
proof (induction bs arbitrary: h)
  case Nil
  have "pushed (\<lambda>x. Vec3 0 0 0) h = h" by (rule pushed_zero)
  moreover have "rowDelta rep h a [] = (\<lambda>x. Vec3 0 0 0)"
    by (auto simp: rowDelta_def fun_eq_iff sum3_simps)
  ultimately show ?case by simp
next
  case (Cons b bs)
  let ?h1 = "pushed (pairDelta (pairForce rep h a b) a b) h"
  from Cons.prems have ab: "a \<noteq> b" and a: "a \<notin> set bs" and b: "b \<notin> set bs" and d: "distinct bs"
    by auto
  have row: "repulsionRow rep a bs ?h1 = Some (pushed (rowDelta rep ?h1 a bs) ?h1)"
    using a d by (rule Cons.IH)
  have same: "rowDelta rep ?h1 a bs = rowDelta rep h a bs"
    by (simp add: rowDelta_def pairForce_pushed fun_eq_iff)
  have "add3 (pairDelta (pairForce rep h a b) a b x) (rowDelta rep h a bs x)
      = rowDelta rep h a (b # bs) x" for x
    using ab a b by (auto simp: pairDelta_def rowDelta_def sum3_simps add3_zero)
  then have "pushed (rowDelta rep h a bs) ?h1 = pushed (rowDelta rep h a (b # bs)) h"
    by (simp add: pushed_pushed)
  with row same show ?case by (simp add: repulsionPair_pushed [OF ab])
qed

lemma repulsionAll_pushed:
  assumes "distinct ns"
  shows "repulsionAll rep ns h = Some (pushed (netRepulsion rep h ns) h)"
  using assms
proof (induction ns arbitrary: h)
  case Nil
  have "pushed (\<lambda>x. Vec3 0 0 0) h = h" by (rule pushed_zero)
  moreover have "netRepulsion rep h [] = (\<lambda>x. Vec3 0 0 0)"
    by (auto simp: netRepulsion_def fun_eq_iff)
  ultimately show ?case by simp
next
  case (Cons a ns)
  let ?h1 = "pushed (rowDelta rep h a ns) h"
  from Cons.prems have a: "a \<notin> set ns" and d: "distinct ns" by auto
  have row: "repulsionRow rep a ns h = Some ?h1" using a d by (rule repulsionRow_pushed)
  have rest: "repulsionAll rep ns ?h1 = Some (pushed (netRepulsion rep ?h1 ns) ?h1)"
    using d by (rule Cons.IH)
  have same: "netRepulsion rep ?h1 ns = netRepulsion rep h ns"
    by (simp add: netRepulsion_pushed)
  have keep: "filter (\<lambda>y. y \<noteq> a) ns = ns" using a by (induction ns) auto
  have "add3 (rowDelta rep h a ns x) (netRepulsion rep h ns x) = netRepulsion rep h (a # ns) x"
    for x
    using a
    by (auto simp: rowDelta_def netRepulsion_def sum3_simps add3_zero keep
        pairForce_swap [of rep h x a])
  then have "pushed (netRepulsion rep h ns) ?h1 = pushed (netRepulsion rep h (a # ns)) h"
    by (simp add: pushed_pushed)
  with row rest same show ?case by simp
qed

lemma calculateForces_pushed:
  assumes "distinct (map snd (nodes G))"
  shows "calculateForces G =
     Some (G\<lparr>heap :=
        fold (centerPull (centerAttraction (forces G))) (map snd (nodes G))
          (fold (springLink (linkStrength (forces G))) (links G)
            (pushed (netRepulsion (repulsion (forces G))
                       (fold resetForce (map snd (nodes G)) (heap G)) (map snd (nodes G)))
               (fold resetForce (map snd (nodes G)) (heap G))))\<rparr>)"
  by (simp add: calculateForces_def Let_def repulsionAll_pushed [OF assms])

text \<open>The two unlinked notes at distance 1.\<close>

lemma pair_graph_fields:
  "nodes pair_graph = [(''p'', 0), (''q'', 1)]" "links pair_graph = []"
  "forces pair_graph =
     \<lparr>repulsion = 0.8, friction = 0.05, centerAttraction = 0.001, linkStrength = 0.03\<rparr>"
  by (simp_all add: pair_graph_def place_def store_fields addNode_config
      GravityGraph_constructor_def)

lemma pair_graph_heap:
  "heap pair_graph = [0 \<mapsto> pair_mesh ''p'' (Vec3 0 0 0), 1 \<mapsto> pair_mesh ''q'' (Vec3 1 0 0)]"
  by (simp add: pair_graph_def place_def addNode_def GravityGraph_constructor_def Let_def
      truthy_def or_else_def getNodeColor_def modify_def pair_mesh_def zero3_def fun_eq_iff)

lemma unit_pair:
  assumes "position_of h 0 = Vec3 0 0 0" "position_of h (Suc 0) = Vec3 1 0 0"
  shows "pairForce (4 / 5) h 0 (Suc 0) = Vec3 (- (4 / 5)) 0 0"
    and "pairForce (4 / 5) h (Suc 0) 0 = Vec3 (4 / 5) 0 0"
proof -
  have s: "separation h 0 (Suc 0) = 1" by (simp add: separation_def assms distanceTo_def)
  show 1: "pairForce (4 / 5) h 0 (Suc 0) = Vec3 (- (4 / 5)) 0 0"
    by (simp add: pairForce_def s repulsionDirection_def assms normalize_def length3_def)
  show "pairForce (4 / 5) h (Suc 0) 0 = Vec3 (4 / 5) 0 0"
    by (simp add: pairForce_swap [of _ h "Suc 0" 0] 1)
qed

lemma unit_net:
  assumes "position_of h 0 = Vec3 0 0 0" "position_of h (Suc 0) = Vec3 1 0 0"
  shows "netRepulsion (4 / 5) h [0, Suc 0] 0 = Vec3 (- (4 / 5)) 0 0"
    and "netRepulsion (4 / 5) h [0, Suc 0] (Suc 0) = Vec3 (4 / 5) 0 0"
  by (simp_all add: netRepulsion_def sum3_simps unit_pair [OF assms])

lemma position_of_resetForce: "position_of (fold resetForce ns h) = position_of h"
  by (induction ns arbitrary: h)
     (auto simp: resetForce_def modify_def position_of_def fun_eq_iff split: option.splits)

text \<open>
  Claim C6 (repulsion singularity guard).  Numbers are real numbers here, and a
  quotient that would be \<open>NaN\<close> or infinite is the result \<open>None\<close> of the division.
  For a pair of nodes closer than \<open>0.1\<close> the loop body changes nothing.  For a pair
  at distance at least \<open>0.1\<close> the divisor \<open>distance * distance\<close> is at least \<open>0.01\<close>, the
  division succeeds, the vector \<open>direction\<close> has the length
  \<open>|repulsion| / distance\<^sup>2\<close> along the separation of the pair, and it is added to
  the force of the first node and subtracted from the force of the second; the
  force of a pair on one end is the opposite of its force on the other end.  The
  loops apply this to every unordered pair: for pairwise different mesh objects
  \<open>ns\<close> the repulsion loops add to the force of every node of \<open>ns\<close> the sum, over all
  other nodes of \<open>ns\<close>, of the force of the pair (nothing for a pair closer than
  \<open>0.1\<close>), and they change nothing else; \<open>calculateForces\<close> runs them on the forces
  reset to zero and hands the result to the link and centre terms.  The loops and
  \<open>calculateForces\<close> never meet a failing division, whatever the nodes are.
\<close>

theorem repulsion_singularity_guard:
  "(separation h nodeA nodeB < 0.1 \<longrightarrow> repulsionPair rep nodeA nodeB h = Some h)
   \<and> (\<not> separation h nodeA nodeB < 0.1 \<longrightarrow>
        1 / 100 \<le> separation h nodeA nodeB * separation h nodeA nodeB
      \<and> js_divide rep (separation h nodeA nodeB * separation h nodeA nodeB)
          = Some (rep / (separation h nodeA nodeB * separation h nodeA nodeB))
      \<and> repulsionPair rep nodeA nodeB h =
          Some (modify nodeB (force_sub (repulsionDirection rep h nodeA nodeB))
                 (modify nodeA (force_add (repulsionDirection rep h nodeA nodeB)) h))
      \<and> length3 (repulsionDirection rep h nodeA nodeB)
          = \<bar>rep\<bar> / (separation h nodeA nodeB * separation h nodeA nodeB))
   \<and> pairForce rep h nodeB nodeA = neg3 (pairForce rep h nodeA nodeB)
   \<and> (distinct ns \<longrightarrow> repulsionAll rep ns h = Some (pushed (netRepulsion rep h ns) h))
   \<and> (distinct (map snd (nodes G)) \<longrightarrow>
        calculateForces G =
          Some (G\<lparr>heap :=
            fold (centerPull (centerAttraction (forces G))) (map snd (nodes G))
              (fold (springLink (linkStrength (forces G))) (links G)
                (pushed (netRepulsion (repulsion (forces G))
                           (fold resetForce (map snd (nodes G)) (heap G)) (map snd (nodes G)))
                   (fold resetForce (map snd (nodes G)) (heap G))))\<rparr>))
   \<and> repulsionAll rep ns h \<noteq> None
   \<and> calculateForces G \<noteq> None"
proof -
  have far: "1 / 100 \<le> separation h nodeA nodeB * separation h nodeA nodeB"
    "js_divide rep (separation h nodeA nodeB * separation h nodeA nodeB)
          = Some (rep / (separation h nodeA nodeB * separation h nodeA nodeB))"
    if "\<not> separation h nodeA nodeB < 0.1"
  proof -
    from that have "1 / 10 \<le> separation h nodeA nodeB" by simp
    then have "1 / 10 * (1 / 10) \<le> separation h nodeA nodeB * separation h nodeA nodeB"
      by (intro mult_mono) simp_all
    then show "1 / 100 \<le> separation h nodeA nodeB * separation h nodeA nodeB" by simp
    then show "js_divide rep (separation h nodeA nodeB * separation h nodeA nodeB)
          = Some (rep / (separation h nodeA nodeB * separation h nodeA nodeB))"
      by (auto simp: js_divide_def)
  qed
  show ?thesis
    using far repulsionPair_near [of h nodeA nodeB rep] repulsionPair_far [of h nodeA nodeB rep]
      repulsion_magnitude [of h nodeA nodeB rep]
      repulsionAll_total [of rep ns h] calculateForces_total [of G]
      pairForce_swap [of rep h nodeB nodeA] repulsionAll_pushed [of ns rep h]
      calculateForces_pushed [of G]
    by simp
qed

theorem repulsion_singularity_guard_witness:
  "separation (two_bodies (Vec3 0 0 0)) 0 1 < 0.1
   \<and> repulsionPair (4 / 5) 0 1 (two_bodies (Vec3 0 0 0)) = Some (two_bodies (Vec3 0 0 0))
   \<and> \<not> separation (two_bodies (Vec3 1 0 0)) 0 1 < 0.1
   \<and> repulsionPair (4 / 5) 0 1 (two_bodies (Vec3 1 0 0)) =
       Some (modify 1 (force_sub (Vec3 (- (4 / 5)) 0 0))
              (modify 0 (force_add (Vec3 (- (4 / 5)) 0 0)) (two_bodies (Vec3 1 0 0))))
   \<and> distinct [0, 1 :: ref]
   \<and> map_option (\<lambda>h'. (map_option force (h' 0), map_option force (h' 1)))
         (repulsionAll (4 / 5) [0, 1] (two_bodies (Vec3 0 0 0)))
       = Some (Some (Vec3 0 0 0), Some (Vec3 0 0 0))
   \<and> map_option (\<lambda>h'. (map_option force (h' 0), map_option force (h' 1)))
         (repulsionAll (4 / 5) [0, 1] (two_bodies (Vec3 1 0 0)))
       = Some (Some (Vec3 (- (4 / 5)) 0 0), Some (Vec3 (4 / 5) 0 0))
   \<and> distinct (map snd (nodes pair_graph))
   \<and> map_option (\<lambda>G'. (map_option force (heap G' 0), map_option force (heap G' 1)))
         (calculateForces pair_graph)
       = Some (Some (Vec3 (- (4 / 5)) 0 0), Some (Vec3 (799 / 1000) 0 0))"
proof -
  have 1: "separation (two_bodies (Vec3 0 0 0)) 0 (Suc 0) = 0"
    by (simp add: separation_def two_bodies_positions distanceTo_def)
  have 2: "separation (two_bodies (Vec3 1 0 0)) 0 (Suc 0) = 1"
    by (simp add: separation_def two_bodies_positions distanceTo_def)
  have 3: "repulsionDirection (4 / 5) (two_bodies (Vec3 1 0 0)) 0 (Suc 0)
      = Vec3 (- (4 / 5)) 0 0"
    by (simp add: repulsionDirection_def 2 two_bodies_positions normalize_def length3_def)
  have 4: "netRepulsion (4 / 5) (two_bodies (Vec3 1 0 0)) [0, Suc 0] 0 = Vec3 (- (4 / 5)) 0 0"
    "netRepulsion (4 / 5) (two_bodies (Vec3 1 0 0)) [0, Suc 0] (Suc 0) = Vec3 (4 / 5) 0 0"
    by (simp_all add: unit_net two_bodies_positions)
  have 5: "two_bodies q 0 = Some (body (Vec3 0 0 0))" "two_bodies q (Suc 0) = Some (body q)"
    for q
    by (simp_all add: two_bodies_def)
  let ?h0 = "resetForce (Suc 0) (resetForce 0 (heap pair_graph))"
  have h0: "fold resetForce [0, Suc 0] (heap pair_graph) = ?h0" by simp
  have p: "position_of ?h0 0 = Vec3 0 0 0" "position_of ?h0 (Suc 0) = Vec3 1 0 0"
    unfolding h0 [symmetric] position_of_resetForce
    by (simp_all add: pair_graph_heap position_of_def pair_mesh_def)
  have 6: "netRepulsion (4 / 5) ?h0 [0, Suc 0] 0 = Vec3 (- (4 / 5)) 0 0"
    "netRepulsion (4 / 5) ?h0 [0, Suc 0] (Suc 0) = Vec3 (4 / 5) 0 0"
    by (rule unit_net [OF p])+
  have 7: "?h0 0 = Some (pair_mesh ''p'' (Vec3 0 0 0))"
    "?h0 (Suc 0) = Some (pair_mesh ''q'' (Vec3 1 0 0))"
    by (simp_all add: pair_graph_heap resetForce_def modify_def pair_mesh_def)
  have 8: "netRepulsion (4 / 5) (two_bodies (Vec3 0 0 0)) [0, Suc 0] 0 = Vec3 0 0 0"
    "netRepulsion (4 / 5) (two_bodies (Vec3 0 0 0)) [0, Suc 0] (Suc 0) = Vec3 0 0 0"
    by (simp_all add: netRepulsion_def sum3_simps pairForce_def separation_def
        two_bodies_positions distanceTo_def)
  note near = repulsion_singularity_guard
      [of "two_bodies (Vec3 0 0 0)" 0 1 "4 / 5" "[0, 1]" pair_graph]
  note far = repulsion_singularity_guard
      [of "two_bodies (Vec3 1 0 0)" 0 1 "4 / 5" "[0, 1]" pair_graph]
  have a: "repulsionPair (4 / 5) 0 1 (two_bodies (Vec3 0 0 0)) = Some (two_bodies (Vec3 0 0 0))"
    using near by (simp add: 1)
  have b: "repulsionPair (4 / 5) 0 1 (two_bodies (Vec3 1 0 0)) =
       Some (modify 1 (force_sub (Vec3 (- (4 / 5)) 0 0))
              (modify 0 (force_add (Vec3 (- (4 / 5)) 0 0)) (two_bodies (Vec3 1 0 0))))"
    using far by (simp add: 2 3)
  have "repulsionAll (4 / 5) [0, 1] (two_bodies (Vec3 0 0 0))
      = Some (pushed (netRepulsion (4 / 5) (two_bodies (Vec3 0 0 0)) [0, 1])
                (two_bodies (Vec3 0 0 0)))"
    using near by simp
  then have e: "map_option (\<lambda>h'. (map_option force (h' 0), map_option force (h' 1)))
         (repulsionAll (4 / 5) [0, 1] (two_bodies (Vec3 0 0 0)))
       = Some (Some (Vec3 0 0 0), Some (Vec3 0 0 0))"
    by (simp add: pushed_def 8 5 force_add_def body_def)
  have "repulsionAll (4 / 5) [0, 1] (two_bodies (Vec3 1 0 0))
      = Some (pushed (netRepulsion (4 / 5) (two_bodies (Vec3 1 0 0)) [0, 1])
                (two_bodies (Vec3 1 0 0)))"
    using far by simp
  then have c: "map_option (\<lambda>h'. (map_option force (h' 0), map_option force (h' 1)))
         (repulsionAll (4 / 5) [0, 1] (two_bodies (Vec3 1 0 0)))
       = Some (Some (Vec3 (- (4 / 5)) 0 0), Some (Vec3 (4 / 5) 0 0))"
    by (simp add: pushed_def 4 5 force_add_def body_def)
  have cf: "calculateForces pair_graph =
      Some (pair_graph\<lparr>heap :=
        centerPull (1 / 1000) (Suc 0) (centerPull (1 / 1000) 0
          (pushed (netRepulsion (4 / 5) ?h0 [0, Suc 0]) ?h0))\<rparr>)"
    using far by (simp add: pair_graph_fields)
  have d: "map_option (\<lambda>G'. (map_option force (heap G' 0), map_option force (heap G' 1)))
         (calculateForces pair_graph)
       = Some (Some (Vec3 (- (4 / 5)) 0 0), Some (Vec3 (799 / 1000) 0 0))"
    unfolding cf
    by (simp add: centerPull_def modify_def pushed_def 6 7 force_add_def pair_mesh_def)
  show ?thesis
    using a b c d e by (simp add: 1 2 pair_graph_fields)
qed

subsection \<open>Every history gives a well-formed graph\<close>

text \<open>The theorems on freezing and on the node scale assume that the ids and the
  mesh objects of \<open>nodes\<close> are pairwise different and that the mesh object of the
  node is allocated.  Every graph that the operations produce from a new graph is
  of this kind (\<open>history_node\<close>).\<close>

lemma modify_None: "modify n f h x = None \<longleftrightarrow> h x = None"
  by (simp add: modify_def)

lemma distinct_snd_update:
  "distinct (map snd al) \<Longrightarrow> v \<notin> snd ` set al \<Longrightarrow> distinct (map snd (AList.update k v al))"
proof (induction al)
  case Nil
  then show ?case by simp
next
  case (Cons e al)
  have "snd ` set (AList.update k v al) \<subseteq> insert v (snd ` set al)"
    by (induction al) auto
  with Cons show ?case by (cases e) (auto simp: image_iff)
qed

lemma set_update_subset: "set (AList.update k v al) \<subseteq> insert (k, v) (set al)"
  by (induction al) auto

lemma wellFormed_constructor: "wellFormed GravityGraph_constructor"
  by (simp add: wellFormed_def GravityGraph_constructor_def)

lemma wellFormed_addNode:
  assumes "wellFormed G"
  shows "wellFormed (addNode G uid p d r1 r2)"
proof -
  have fresh: "next_ref G \<notin> snd ` set (nodes G)"
    using assms by (auto simp: wellFormed_def list_all_iff)
  have 1: "distinct (map fst (nodes (addNode G uid p d r1 r2)))"
    using assms by (simp add: wellFormed_def addNode_fields AList.distinct_update)
  have 2: "distinct (map snd (nodes (addNode G uid p d r1 r2)))"
    using assms fresh by (simp add: wellFormed_def addNode_fields distinct_snd_update)
  have heap: "heap (addNode G uid p d r1 r2) x \<noteq> None" if "x = next_ref G \<or> heap G x \<noteq> None" for x
    using that by (auto simp: addNode_def Let_def)
  have 3: "list_all (\<lambda>e. snd e < next_ref (addNode G uid p d r1 r2)
               \<and> heap (addNode G uid p d r1 r2) (snd e) \<noteq> None) (nodes (addNode G uid p d r1 r2))"
    unfolding list_all_iff
  proof
    fix e assume "e \<in> set (nodes (addNode G uid p d r1 r2))"
    then have "e = (uid, next_ref G) \<or> e \<in> set (nodes G)"
      using set_update_subset [of uid "next_ref G" "nodes G"] by (auto simp: addNode_fields)
    then show "snd e < next_ref (addNode G uid p d r1 r2)
               \<and> heap (addNode G uid p d r1 r2) (snd e) \<noteq> None"
      using assms heap [of "snd e"] by (auto simp: wellFormed_def list_all_iff addNode_fields less_Suc_eq)
  qed
  from 1 2 3 show ?thesis by (simp add: wellFormed_def)
qed

lemma wellFormed_addLink: "wellFormed G \<Longrightarrow> wellFormed (addLink G a b)"
  by (auto simp: wellFormed_def addLink_fields addLink_links list_all_iff less_Suc_eq split: option.splits)

lemma wellFormed_removeLink: "wellFormed G \<Longrightarrow> wellFormed (removeLink G a b)"
  by (auto simp: wellFormed_def removeLink_def split: option.splits)

lemma wellFormed_removeNode:
  assumes "wellFormed G"
  shows "wellFormed (removeNode G uid)"
proof (cases "map_of (nodes G) uid")
  case None
  with assms show ?thesis by (simp add: removeNode_def)
next
  case (Some node)
  have n: "nodes (removeNode G uid) = AList.delete uid (nodes G)"
    and h: "heap (removeNode G uid) = heap G" and r: "next_ref (removeNode G uid) = next_ref G"
    using Some by (simp_all add: removeNode_def Let_def removeLabelForNode_def split: option.splits)
  have "distinct (map snd (AList.delete uid (nodes G)))"
    using assms by (simp add: wellFormed_def AList.delete_eq distinct_map_filter)
  moreover have "set (AList.delete uid (nodes G)) \<subseteq> set (nodes G)"
    by (auto simp: AList.delete_eq)
  ultimately show ?thesis
    using assms by (auto simp: wellFormed_def n h r AList.distinct_delete list_all_iff)
qed


lemma wellFormed_renameNode:
  assumes "wellFormed G"
  shows "wellFormed (renameNode G old new p)"
proof (cases "map_of (nodes G) old")
  case None
  with assms show ?thesis by (simp add: renameNode_def)
next
  case (Some node)
  let ?G = "renameNode G old new p"
  have n: "nodes ?G = AList.update new node (AList.delete old (nodes G))"
    and r: "next_ref ?G = next_ref G"
    and h: "heap ?G x = None \<longleftrightarrow> heap G x = None" for x
    using Some
    by (auto simp: renameNode_def Let_def removeLabel_fields removeLabelForNode_def
        split: option.splits)
  have mem: "(old, node) \<in> set (nodes G)" using Some by (rule map_of_SomeD)
  have inj: "inj_on snd (set (nodes G))" and d1: "distinct (map fst (nodes G))"
    using assms by (simp_all add: wellFormed_def distinct_map)
  have sub: "set (AList.delete old (nodes G)) \<subseteq> set (nodes G)"
    by (auto simp: AList.delete_eq)
  have "node \<notin> snd ` set (AList.delete old (nodes G))"
  proof
    assume "node \<in> snd ` set (AList.delete old (nodes G))"
    then obtain k where k: "(k, node) \<in> set (AList.delete old (nodes G))" by auto
    then have "k \<noteq> old" by (auto simp: AList.delete_eq)
    moreover from k sub mem inj have "(k, node) = (old, node)"
      by (auto dest!: inj_onD [where x = "(k, node)" and y = "(old, node)"])
    ultimately show False by simp
  qed
  moreover have "distinct (map snd (AList.delete old (nodes G)))"
    using assms by (simp add: wellFormed_def AList.delete_eq distinct_map_filter)
  ultimately have d2: "distinct (map snd (nodes ?G))" by (simp add: n distinct_snd_update)
  have d1': "distinct (map fst (nodes ?G))"
    using d1 by (simp add: n AList.distinct_update AList.distinct_delete)
  have "set (nodes ?G) \<subseteq> insert (new, node) (set (nodes G))"
    using set_update_subset [of new node "AList.delete old (nodes G)"] sub by (auto simp: n)
  then have "list_all (\<lambda>e. snd e < next_ref ?G \<and> heap ?G (snd e) \<noteq> None) (nodes ?G)"
    using assms mem unfolding list_all_iff wellFormed_def r h by fastforce
  with d1' d2 show ?thesis by (simp add: wellFormed_def)
qed

lemma wellFormed_place: "wellFormed G \<Longrightarrow> wellFormed (place node p v G)"
  by (simp add: wellFormed_def place_def modify_None)

lemma wellFormed_setFreeze: "wellFormed G \<Longrightarrow> wellFormed (setFreeze enabled G)"
  by (simp add: wellFormed_def setFreeze_def)

lemma wellFormed_heap:
  assumes "wellFormed G" "nodes G' = nodes G" "next_ref G' = next_ref G"
    and "\<And>x. heap G' x = None \<longleftrightarrow> heap G x = None"
  shows "wellFormed G'"
  using assms by (simp add: wellFormed_def)

lemma updateNode_frame:
  "nodes (fst (updateNode counts cam e Gv)) = nodes (fst Gv)"
  "next_ref (fst (updateNode counts cam e Gv)) = next_ref (fst Gv)"
  "heap (fst (updateNode counts cam e Gv)) x = None \<longleftrightarrow> heap (fst Gv) x = None"
proof -
  have p: "nodes (updatePosition u n A) = nodes A" "next_ref (updatePosition u n A) = next_ref A"
    "heap (updatePosition u n A) x = None \<longleftrightarrow> heap A x = None" for u n A
    by (auto simp: updatePosition_def split: option.splits)
  have c: "nodes (updateColor u n A) = nodes A" "next_ref (updateColor u n A) = next_ref A"
    "heap (updateColor u n A) x = None \<longleftrightarrow> heap A x = None" for u n A
    by (auto simp: updateColor_def Let_def modify_None split: option.splits)
  have s: "nodes (updateScale counts u n A) = nodes A" "next_ref (updateScale counts u n A) = next_ref A"
    "heap (updateScale counts u n A) x = None \<longleftrightarrow> heap A x = None" for u n A
    by (auto simp: updateScale_def Let_def modify_None)
  have l: "nodes (fst (updateLabel cam u n B)) = nodes (fst B)"
    "next_ref (fst (updateLabel cam u n B)) = next_ref (fst B)"
    "heap (fst (updateLabel cam u n B)) = heap (fst B)" for u n B
    by (auto simp: updateLabel_def Let_def split: option.splits)
  show "nodes (fst (updateNode counts cam e Gv)) = nodes (fst Gv)"
    "next_ref (fst (updateNode counts cam e Gv)) = next_ref (fst Gv)"
    "heap (fst (updateNode counts cam e Gv)) x = None \<longleftrightarrow> heap (fst Gv) x = None"
    by (simp_all add: updateNode_def Let_def p c s l)
qed

lemma fold_updateNode_frame:
  "nodes (fst (fold (updateNode counts cam) ns Gv)) = nodes (fst Gv)"
  "next_ref (fst (fold (updateNode counts cam) ns Gv)) = next_ref (fst Gv)"
  "heap (fst (fold (updateNode counts cam) ns Gv)) x = None \<longleftrightarrow> heap (fst Gv) x = None"
  by (induction ns arbitrary: Gv; simp add: updateNode_frame)+

lemma wellFormed_updateAllNodes:
  assumes "wellFormed G"
  shows "wellFormed (updateAllNodes G cam)"
proof (rule wellFormed_heap [OF assms])
  show "nodes (updateAllNodes G cam) = nodes G"
    by (simp add: updateAllNodes_def Let_def cleanupLabels_def fold_updateNode_frame split: option.splits)
  show "next_ref (updateAllNodes G cam) = next_ref G"
    by (simp add: updateAllNodes_def Let_def cleanupLabels_def fold_updateNode_frame split: option.splits)
  show "heap (updateAllNodes G cam) x = None \<longleftrightarrow> heap G x = None" for x
    by (simp add: updateAllNodes_def Let_def cleanupLabels_def fold_updateNode_frame split: option.splits)
qed

lemma repulsionPair_None:
  assumes "repulsionPair rep a b h = Some h'"
  shows "h' x = None \<longleftrightarrow> h x = None"
proof (cases "separation h a b < 0.1")
  case True
  with assms show ?thesis by (simp add: repulsionPair_near)
next
  case False
  from assms repulsionPair_far [OF False, of rep]
  have "h' = modify b (force_sub (repulsionDirection rep h a b))
                (modify a (force_add (repulsionDirection rep h a b)) h)"
    by simp
  then show ?thesis by (simp add: modify_None)
qed

lemma repulsionRow_None:
  "repulsionRow rep a ns h = Some h' \<Longrightarrow> h' x = None \<longleftrightarrow> h x = None"
proof (induction ns arbitrary: h)
  case Nil
  then show ?case by simp
next
  case (Cons b ns)
  obtain h1 where h1: "repulsionPair rep a b h = Some h1"
    using repulsionPair_total [of rep a b h] by auto
  with Cons.prems have "repulsionRow rep a ns h1 = Some h'" by simp
  then have "h' x = None \<longleftrightarrow> h1 x = None" by (rule Cons.IH)
  with repulsionPair_None [OF h1, of x] show ?case by simp
qed

lemma repulsionAll_None:
  "repulsionAll rep ns h = Some h' \<Longrightarrow> h' x = None \<longleftrightarrow> h x = None"
proof (induction ns arbitrary: h)
  case Nil
  then show ?case by simp
next
  case (Cons a ns)
  obtain h1 where h1: "repulsionRow rep a ns h = Some h1"
    using repulsionRow_total [of rep a ns h] by auto
  with Cons.prems have "repulsionAll rep ns h1 = Some h'" by simp
  then have "h' x = None \<longleftrightarrow> h1 x = None" by (rule Cons.IH)
  with repulsionRow_None [OF h1, of x] show ?case by simp
qed

lemma fold_force_None:
  "fold resetForce ns h x = None \<longleftrightarrow> h x = None"
  "fold (springLink k) ls h x = None \<longleftrightarrow> h x = None"
  "fold (centerPull c) ns h x = None \<longleftrightarrow> h x = None"
proof -
  show "fold resetForce ns h x = None \<longleftrightarrow> h x = None"
    by (induction ns arbitrary: h) (simp_all add: resetForce_def modify_None)
  show "fold (springLink k) ls h x = None \<longleftrightarrow> h x = None"
    by (induction ls arbitrary: h) (simp_all add: springLink_def Let_def modify_None)
  show "fold (centerPull c) ns h x = None \<longleftrightarrow> h x = None"
    by (induction ns arbitrary: h) (simp_all add: centerPull_def modify_None)
qed

lemma wellFormed_calculateForces:
  assumes "wellFormed G" "calculateForces G = Some G'"
  shows "wellFormed G'"
proof -
  obtain h1 where
    h1: "repulsionAll (repulsion (forces G)) (map snd (nodes G))
           (fold resetForce (map snd (nodes G)) (heap G)) = Some h1"
    using repulsionAll_total by blast
  with assms(2) have G': "G' = G\<lparr>heap := fold (centerPull (centerAttraction (forces G)))
        (map snd (nodes G)) (fold (springLink (linkStrength (forces G))) (links G) h1)\<rparr>"
    by (simp add: calculateForces_def Let_def)
  have "heap G' x = None \<longleftrightarrow> heap G x = None" for x
    unfolding G' using repulsionAll_None [OF h1, of x] by (simp add: fold_force_None)
  moreover have "nodes G' = nodes G" "next_ref G' = next_ref G" by (simp_all add: G')
  ultimately show ?thesis using wellFormed_heap [OF assms(1), of G'] by blast
qed

lemma wellFormed_apply: "wellFormed G \<Longrightarrow> wellFormed (apply_store_op op G)"
proof (cases op)
  case (Frame cam)
  assume wf: "wellFormed G"
  obtain G' where G': "calculateForces G = Some G'"
    using calculateForces_total [of G] by auto
  then have "wellFormed G'" using wf wellFormed_calculateForces by blast
  then show ?thesis by (simp add: Frame G' wellFormed_updateAllNodes)
qed (simp_all add: wellFormed_addNode wellFormed_addLink wellFormed_removeNode
      wellFormed_removeLink wellFormed_renameNode wellFormed_place wellFormed_setFreeze)

lemma wellFormed_history: "wellFormed (history ops)"
proof -
  have "wellFormed G \<Longrightarrow> wellFormed (fold apply_store_op ops G)" for G
    by (induction ops arbitrary: G) (simp_all add: wellFormed_apply)
  then show ?thesis by (simp add: history_def wellFormed_constructor)
qed

lemma history_node:
  assumes "(uid, node) \<in> set (nodes (history ops))"
  shows "distinct (map fst (nodes (history ops)))" "distinct (map snd (nodes (history ops)))"
    "heap (history ops) node \<noteq> None"
  using assms wellFormed_history [of ops] by (auto simp: wellFormed_def list_all_iff)

text \<open>The mesh objects of a graph that the operations produce are pairwise
  different, so \<open>calculateForces\<close> adds to every node the repulsion of all its pairs.\<close>

lemma calculateForces_history:
  "calculateForces (history ops) =
     Some ((history ops)\<lparr>heap :=
        fold (centerPull (centerAttraction (forces (history ops)))) (map snd (nodes (history ops)))
          (fold (springLink (linkStrength (forces (history ops)))) (links (history ops))
            (pushed (netRepulsion (repulsion (forces (history ops)))
                       (fold resetForce (map snd (nodes (history ops))) (heap (history ops)))
                       (map snd (nodes (history ops))))
               (fold resetForce (map snd (nodes (history ops))) (heap (history ops)))))\<rparr>)"
proof -
  have "distinct (map snd (nodes (history ops)))"
    using wellFormed_history [of ops] by (simp add: wellFormed_def)
  then show ?thesis by (rule calculateForces_pushed)
qed

subsection \<open>At most one link between two mesh objects\<close>

lemma connects_swap:
  "connects (link_from l) (link_to l) l' \<longleftrightarrow> connects (link_from l') (link_to l') l"
  by (auto simp: connects_def)

lemma unique_links_append:
  "unique_links (ls @ [l]) \<longleftrightarrow>
     unique_links ls \<and> \<not> list_ex (connects (link_from l) (link_to l)) ls"
  by (induction ls) (auto simp: connects_swap [of _ l] list_ex_iff)

lemma unique_links_filter: "unique_links ls \<Longrightarrow> unique_links (filter P ls)"
  by (induction ls) (auto simp: list_ex_iff)

lemma set_remove_first: "set (remove_first P ls) \<subseteq> set ls"
  by (induction ls) auto

lemma unique_links_remove_first: "unique_links ls \<Longrightarrow> unique_links (remove_first P ls)"
proof (induction ls)
  case Nil
  then show ?case by simp
next
  case (Cons l ls)
  then show ?case using set_remove_first [of P ls] by (auto simp: list_ex_iff)
qed


lemma updateNode_links: "links (fst (updateNode counts cam e Gv)) = links (fst Gv)"
proof -
  have "links (fst (updateLabel cam u n B)) = links (fst B)" for u n B
    by (auto simp: updateLabel_def Let_def split: option.splits)
  moreover have "links (updatePosition u n A) = links A" for u n A
    by (auto simp: updatePosition_def split: option.splits)
  moreover have "links (updateColor u n A) = links A" for u n A
    by (auto simp: updateColor_def Let_def split: option.splits)
  moreover have "links (updateScale counts u n A) = links A" for u n A
    by (auto simp: updateScale_def Let_def)
  ultimately show ?thesis by (simp add: updateNode_def Let_def)
qed

lemma updateAllNodes_links: "links (updateAllNodes G cam) = links G"
proof -
  have "links (fst (fold (updateNode counts c) ns Gv)) = links (fst Gv)" for counts c ns Gv
    by (induction ns arbitrary: Gv) (simp_all add: updateNode_links)
  then show ?thesis
    by (simp add: updateAllNodes_def Let_def cleanupLabels_def split: option.splits)
qed

lemma calculateForces_links: "calculateForces G = Some G' \<Longrightarrow> links G' = links G"
  by (auto simp: calculateForces_def Let_def split: option.splits)

lemma unique_links_apply:
  assumes "unique_links (links G)"
  shows "unique_links (links (apply_store_op op G))"
proof (cases op)
  case (AddNode uid p d r1 r2)
  with assms show ?thesis by (simp add: addNode_fields)
next
  case (AddLink a b)
  with assms show ?thesis
    by (auto simp: addLink_links unique_links_append split: option.splits)
next
  case (RemoveNode uid)
  with assms show ?thesis
    by (auto simp: removeNode_def Let_def removeLabel_fields unique_links_filter
        split: option.splits)
next
  case (RemoveLink a b)
  with assms show ?thesis
    by (auto simp: removeLink_def unique_links_remove_first split: option.splits)
next
  case (RenameNode old new p)
  with assms show ?thesis
    by (auto simp: renameNode_def Let_def removeLabel_fields split: option.splits)
next
  case (Place node p v)
  with assms show ?thesis by (simp add: place_def)
next
  case (SetFreeze enabled)
  with assms show ?thesis by (simp add: setFreeze_def)
next
  case (Frame cam)
  with assms show ?thesis
    by (auto simp: updateAllNodes_links calculateForces_links split: option.splits)
qed

lemma unique_links_history: "unique_links (links (history ops))"
proof -
  have "unique_links (links G) \<Longrightarrow> unique_links (links (fold apply_store_op ops G))" for G
    by (induction ops arbitrary: G) (simp_all add: unique_links_apply)
  then show ?thesis by (simp add: history_def constructor_fields)
qed

section \<open>Properties of the Particle Flow System\<close>

lemma createPool_fields:
  "particles (createPool n S) = particles S"
  "maxParticles (createPool n S) = maxParticles S"
  "pool_disposed (createPool n S) = pool_disposed S"
  "pool_next (createPool n S) = pool_next S + n"
  "particlePool (createPool n S) = particlePool S @ [pool_next S ..< pool_next S + n]"
  "pool_scene (createPool n S) = pool_scene S @ [pool_next S ..< pool_next S + n]"
  by (induction n arbitrary: S; simp add: upt_rec)+

lemma createPool_heap:
  "pool_heap (createPool n S) p =
     (if pool_next S \<le> p \<and> p < pool_next S + n then Some freshMesh else pool_heap S p)"
  by (induction n arbitrary: S) (auto simp: freshMesh_def)

lemma clearParticles_fields:
  "particles (clearParticles S) = []" "maxParticles (clearParticles S) = maxParticles S"
  "particlePool (clearParticles S) = particlePool S"
  "pool_next (clearParticles S) = pool_next S"
  "pool_scene (clearParticles S) = pool_scene S"
  "pool_disposed (clearParticles S) = pool_disposed S"
  by (simp_all add: clearParticles_def)

lemma dispose_fields:
  "particles (dispose S) = []" "maxParticles (dispose S) = maxParticles S"
  "particlePool (dispose S) = []" "pool_next (dispose S) = pool_next S"
  "pool_scene (dispose S) = filter (\<lambda>obj. obj \<notin> set (particlePool S)) (pool_scene S)"
  "pool_disposed (dispose S) = pool_disposed S @ concat (map disposeBoth (particlePool S))"
  by (simp_all add: dispose_def Let_def clearParticles_fields)

lemma setMaxParticles_fields:
  "particles (setMaxParticles n S) = []" "maxParticles (setMaxParticles n S) = n"
  "particlePool (setMaxParticles n S) = [pool_next S ..< pool_next S + n]"
  "pool_next (setMaxParticles n S) = pool_next S + n"
  "pool_scene (setMaxParticles n S) =
      filter (\<lambda>obj. obj \<notin> set (particlePool S)) (pool_scene S)
        @ [pool_next S ..< pool_next S + n]"
  "pool_disposed (setMaxParticles n S) =
      pool_disposed S @ concat (map disposeBoth (particlePool S))"
  by (simp_all add: setMaxParticles_def initializeParticlePool_def Let_def createPool_fields
      dispose_fields dispose_def clearParticles_def)

lemma setMaxParticles_heap:
  "pool_next S \<le> p \<Longrightarrow> p < pool_next S + n
   \<Longrightarrow> pool_heap (setMaxParticles n S) p = Some freshMesh"
  by (simp add: setMaxParticles_def initializeParticlePool_def Let_def createPool_heap
      dispose_fields)

lemma constructor_particle_fields:
  "particles (LinkParticleSystem_constructor n) = []"
  "maxParticles (LinkParticleSystem_constructor n) = n"
  "particlePool (LinkParticleSystem_constructor n) = [0 ..< n]"
  "pool_next (LinkParticleSystem_constructor n) = n"
  "pool_scene (LinkParticleSystem_constructor n) = [0 ..< n]"
  "pool_disposed (LinkParticleSystem_constructor n) = []"
  "pool_heap (LinkParticleSystem_constructor n) p = (if p < n then Some freshMesh else None)"
  by (simp_all add: LinkParticleSystem_constructor_def initializeParticlePool_def Let_def
      createPool_fields createPool_heap dispose_fields dispose_def clearParticles_def)

lemma spawn_rejected:
  "length (particles S) \<ge> maxParticles S \<Longrightarrow> spawnParticle nodePos rnd lnk S = S"
  "find (idle (pool_heap S)) (particlePool S) = None \<Longrightarrow> spawnParticle nodePos rnd lnk S = S"
  by (simp_all add: spawnParticle_def)

lemma spawn_fields:
  "maxParticles (spawnParticle nodePos rnd lnk S) = maxParticles S"
  "length (particles (spawnParticle nodePos rnd lnk S))
     \<le> max (length (particles S)) (maxParticles S)"
  by (auto simp: spawnParticle_def Let_def split: option.splits)

lemma spawn_frame:
  "particlePool (spawnParticle nodePos rnd lnk S) = particlePool S"
  "pool_next (spawnParticle nodePos rnd lnk S) = pool_next S"
  "pool_scene (spawnParticle nodePos rnd lnk S) = pool_scene S"
  "pool_disposed (spawnParticle nodePos rnd lnk S) = pool_disposed S"
  by (auto simp: spawnParticle_def Let_def split: option.splits)

lemma stepParticle_fields:
  "maxParticles (stepParticle dt t nodePos i S) = maxParticles S"
  "length (particles (stepParticle dt t nodePos i S)) \<le> length (particles S)"
  by (auto simp: stepParticle_def Let_def)

lemma particleLoop_fields:
  "maxParticles (particleLoop dt t nodePos n S) = maxParticles S"
  "length (particles (particleLoop dt t nodePos n S)) \<le> length (particles S)"
proof (induction n arbitrary: S)
  case 0
  { case 1 show ?case by simp }
  { case 2 show ?case by simp }
next
  case (Suc n)
  { case 1 show ?case by (simp add: Suc.IH(1) stepParticle_fields) }
  { case 2 show ?case
      using Suc.IH(2) [of "stepParticle dt t nodePos n S"]
        stepParticle_fields(2) [of dt t nodePos n S]
      by simp }
qed

lemma update_fields:
  "maxParticles (fst (LinkParticleSystem_update dt t nodePos lnks sh S)) = maxParticles S"
  "length (particles (fst (LinkParticleSystem_update dt t nodePos lnks sh S)))
     \<le> length (particles S)"
  using particleLoop_fields(2) [of dt t nodePos "length (particles S)" "S\<lparr>lastSpawn := t\<rparr>"]
    particleLoop_fields(2) [of dt t nodePos "length (particles S)" S]
  by (auto simp: LinkParticleSystem_update_def Let_def particleLoop_fields(1))

lemma apply_op_bounded: "bounded S \<Longrightarrow> bounded (apply_op op S)"
proof (cases op)
  case (Spawn nodePos rnd lnk)
  assume "bounded S"
  then show ?thesis
    using spawn_fields [of nodePos rnd lnk S] by (simp add: Spawn bounded_def)
next
  case (Update dt t nodePos lnks sh)
  assume "bounded S"
  then show ?thesis
    using update_fields [of dt t nodePos lnks sh S] by (simp add: Update bounded_def)
qed (simp_all add: bounded_def setSpawnRate_def setMaxParticles_fields
      setParticlesShuffleDelay_def clearParticles_fields dispose_fields)

lemma run_bounded: "bounded S \<Longrightarrow> bounded (run ops S)"
  unfolding run_def by (induction ops arbitrary: S) (simp_all add: apply_op_bounded)

lemma constructor_bounded: "bounded (LinkParticleSystem_constructor n)"
  by (simp add: bounded_def constructor_particle_fields)

lemma keeps_maximum_run: "keeps_maximum ops \<Longrightarrow> maxParticles (run ops S) = maxParticles S"
  unfolding run_def keeps_maximum_def
proof (induction ops arbitrary: S)
  case Nil
  show ?case by simp
next
  case (Cons op ops)
  then have "maxParticles (apply_op op S) = maxParticles S"
    by (cases op) (simp_all add: spawn_fields update_fields setSpawnRate_def
        setParticlesShuffleDelay_def clearParticles_fields dispose_fields)
  with Cons show ?case by simp
qed

lemma full_system_fields:
  "length (particles full_system) = 1" "maxParticles full_system = 1"
  "find (idle (pool_heap full_system)) (particlePool full_system) = None"
  by (simp_all add: full_system_def spawnParticle_def constructor_particle_fields Let_def
      idle_def freshMesh_def updateParticlePosition_def)

lemma busy_system_fields:
  "length (particles busy_system) = 1" "maxParticles busy_system = 2"
  "particlePool busy_system = [0, 1]" "pool_next busy_system = 2"
  "pool_scene busy_system = [0, 1]" "pool_disposed busy_system = []"
  by (simp_all add: busy_system_def spawn_frame spawn_fields constructor_particle_fields upt_rec)
     (simp add: busy_system_def spawnParticle_def constructor_particle_fields Let_def idle_def
       freshMesh_def upt_rec)

text \<open>
  Claim C7 (particle conservation): the number of particles in flight never exceeds
  \<open>maxParticles\<close>.  The bound is kept by every run of the public methods (spawn,
  update, the setters, clear, dispose) from a state that satisfies it, and so holds
  in every state reached from a new particle system; a spawn when the number of
  live particles equals \<open>maxParticles\<close>, or when the pool has no idle slot, returns
  the particle system unchanged.
\<close>

theorem particle_count_bounded:
  "(length (particles S) \<le> maxParticles S \<longrightarrow>
       length (particles (run ops S)) \<le> maxParticles (run ops S))
   \<and> length (particles (run ops (LinkParticleSystem_constructor n)))
       \<le> maxParticles (run ops (LinkParticleSystem_constructor n))
   \<and> (length (particles S) = maxParticles S \<longrightarrow> spawnParticle nodePos rnd lnk S = S)
   \<and> (find (idle (pool_heap S)) (particlePool S) = None
        \<longrightarrow> spawnParticle nodePos rnd lnk S = S)"
  using run_bounded [of S ops] run_bounded [OF constructor_bounded, of ops n]
  by (simp add: bounded_def spawn_rejected)

theorem particle_count_bounded_witness:
  "length (particles full_system) \<le> maxParticles full_system
   \<and> length (particles full_system) = maxParticles full_system
   \<and> find (idle (pool_heap full_system)) (particlePool full_system) = None
   \<and> spawnParticle origin 0 (0, 1) full_system = full_system
   \<and> length (particles
         (run [Spawn origin 0 (0, 1), Update 1 0 origin [(0, 1)] [(0, 1)]] full_system))
       \<le> maxParticles
         (run [Spawn origin 0 (0, 1), Update 1 0 origin [(0, 1)] [(0, 1)]] full_system)"
  using particle_count_bounded
    [of full_system "[Spawn origin 0 (0, 1), Update 1 0 origin [(0, 1)] [(0, 1)]]" 0
        origin 0 "(0, 1)"]
  by (simp add: full_system_fields)

text \<open>
  Claim C8: \<open>setMaxParticles(n)\<close> rebuilds the pool.  Afterwards no particle is in
  flight and the maximum is \<open>n\<close>; the pool consists of \<open>n\<close> newly created, invisible
  meshes; the geometry and the material of every mesh of the old pool have been
  disposed, and the old meshes have left the scene (for a pool whose references were
  allocated before, as they always are); and until \<open>setMaxParticles\<close> is called
  again the number of live particles stays at most \<open>n\<close>.
\<close>

theorem setMaxParticles_rebuilds_pool:
  "particles (setMaxParticles n S) = [] \<and> maxParticles (setMaxParticles n S) = n
   \<and> particlePool (setMaxParticles n S) = [pool_next S ..< pool_next S + n]
   \<and> (\<forall>p \<in> set (particlePool (setMaxParticles n S)).
         pool_heap (setMaxParticles n S) p = Some freshMesh)
   \<and> (\<forall>p \<in> set (particlePool S).
         (p, Geometry) \<in> set (pool_disposed (setMaxParticles n S))
         \<and> (p, Material) \<in> set (pool_disposed (setMaxParticles n S))
         \<and> (p < pool_next S \<longrightarrow> p \<notin> set (pool_scene (setMaxParticles n S))))
   \<and> (keeps_maximum ops \<longrightarrow> length (particles (run ops (setMaxParticles n S))) \<le> n)"
proof -
  have "bounded (setMaxParticles n S)" by (simp add: bounded_def setMaxParticles_fields)
  then have "bounded (run ops (setMaxParticles n S))" by (rule run_bounded)
  then have "keeps_maximum ops \<longrightarrow> length (particles (run ops (setMaxParticles n S))) \<le> n"
    by (auto simp: bounded_def keeps_maximum_run setMaxParticles_fields)
  then show ?thesis
    by (auto simp: setMaxParticles_fields setMaxParticles_heap disposeBoth_def)
qed

theorem setMaxParticles_rebuilds_pool_witness:
  "length (particles busy_system) = 1 \<and> particlePool busy_system = [0, 1]
   \<and> particles (setMaxParticles 1 busy_system) = []
   \<and> particlePool (setMaxParticles 1 busy_system) = [2]
   \<and> pool_heap (setMaxParticles 1 busy_system) 2 = Some freshMesh
   \<and> (0, Geometry) \<in> set (pool_disposed (setMaxParticles 1 busy_system))
   \<and> 0 \<notin> set (pool_scene (setMaxParticles 1 busy_system))
   \<and> keeps_maximum [Spawn origin 0 (0, 1), Spawn origin 0 (0, 1)]
   \<and> length (particles (run [Spawn origin 0 (0, 1), Spawn origin 0 (0, 1)]
                (setMaxParticles 1 busy_system))) \<le> 1"
  using setMaxParticles_rebuilds_pool
    [of 1 busy_system "[Spawn origin 0 (0, 1), Spawn origin 0 (0, 1)]"]
  by (simp add: busy_system_fields keeps_maximum_def)

section \<open>Properties of the Identity Resolver\<close>

lemma resolve_known:
  "map_of (pathToUniqueId R) path = Some known
   \<Longrightarrow> generateUniqueNodeId R basename path = (known, R)"
  by (simp add: generateUniqueNodeId_def)

lemma resolve_registers:
  "map_of (pathToUniqueId (snd (generateUniqueNodeId R basename path))) path
     = Some (fst (generateUniqueNodeId R basename path))"
  by (auto simp: generateUniqueNodeId_def Let_def AList.update_conv' split: option.splits)

text \<open>Resolving a path again returns the same id and does not change the resolver.\<close>

lemma resolve_idempotent:
  "generateUniqueNodeId (snd (generateUniqueNodeId R basename path)) basename' path
     = generateUniqueNodeId R basename path"
  using resolve_known [OF resolve_registers, of R basename path basename']
  by simp

text \<open>The first path with a basename gets the basename itself.\<close>

lemma resolve_first_verbatim:
  assumes "map_of (pathToUniqueId R) path = None"
    and "map_of (nodeNameCounter R) basename = None
         \<or> map_of (nodeNameCounter R) basename = Some 0"
  shows "fst (generateUniqueNodeId R basename path) = basename"
  using assms by (auto simp: generateUniqueNodeId_def Let_def)

lemma probe_unused: "map_of m (probe m uniqueId testId counter) = None"
proof (induction m uniqueId testId counter rule: probe.induct)
  case (1 m uniqueId testId counter)
  show ?case
  proof (cases "map_of m testId \<noteq> None")
    case True
    then have "probe m uniqueId testId counter
        = probe m uniqueId (numbered uniqueId counter) (counter + 1)"
      by (subst probe.simps) simp
    with 1 [OF True] show ?thesis by simp
  next
    case False
    then show ?thesis by (subst probe.simps) simp
  qed
qed

lemma probe_shape:
  "probe m uniqueId testId counter = testId
   \<or> (\<exists>k \<ge> counter. probe m uniqueId testId counter = numbered uniqueId k)"
proof (induction m uniqueId testId counter rule: probe.induct)
  case (1 m uniqueId testId counter)
  show ?case
  proof (cases "map_of m testId \<noteq> None")
    case True
    then have eq: "probe m uniqueId testId counter
        = probe m uniqueId (numbered uniqueId counter) (counter + 1)"
      by (subst probe.simps) simp
    from 1 [OF True] consider
        "probe m uniqueId (numbered uniqueId counter) (counter + 1) = numbered uniqueId counter"
      | k where "counter + 1 \<le> k"
          "probe m uniqueId (numbered uniqueId counter) (counter + 1) = numbered uniqueId k"
      by blast
    then have "\<exists>k \<ge> counter. probe m uniqueId testId counter = numbered uniqueId k"
    proof cases
      case 1
      then show ?thesis unfolding eq by blast
    next
      case (2 k)
      then have "counter \<le> k" by simp
      with 2 show ?thesis unfolding eq by blast
    qed
    then show ?thesis ..
  next
    case False
    then show ?thesis by (subst probe.simps) simp
  qed
qed

text \<open>A later path with the same basename gets the basename with the folder name
  in parentheses, or that string followed by a number, and the id it gets is not a
  key of \<open>uniqueIdToPath\<close>.\<close>

lemma resolve_later_suffixed:
  assumes "map_of (pathToUniqueId R) path = None"
    and "map_of (nodeNameCounter R) basename = Some c" "0 < c"
  shows "map_of (uniqueIdToPath R) (fst (generateUniqueNodeId R basename path)) = None
     \<and> (fst (generateUniqueNodeId R basename path) = withFolder basename (folderNameOf path)
       \<or> (\<exists>k \<ge> 1. fst (generateUniqueNodeId R basename path)
             = numbered (withFolder basename (folderNameOf path)) k))"
proof -
  have "fst (generateUniqueNodeId R basename path)
      = probe (uniqueIdToPath R) (withFolder basename (folderNameOf path))
          (withFolder basename (folderNameOf path)) 1"
    using assms by (simp add: generateUniqueNodeId_def Let_def)
  then show ?thesis
    using probe_unused [of "uniqueIdToPath R"] probe_shape [of "uniqueIdToPath R"]
    by simp
qed

lemma folder_b: "folderNameOf ''b/x.md'' = ''b''"
  by (simp add: folderNameOf_def slice_m2_m1_def or_else_def)

lemma two_notes_eq:
  "two_notes = \<lparr>pathToUniqueId = [(''a/x.md'', ''x''), (''b/x.md'', ''x (b)'')],
                uniqueIdToPath = [(''x'', ''a/x.md''), (''x (b)'', ''b/x.md'')],
                nodeNameCounter = [(''x'', 2)]\<rparr>"
  by (simp add: two_notes_def emptyResolver_def generateUniqueNodeId_def Let_def folder_b
      probe.simps withFolder_def)

text \<open>
  Claim C2 (identity resolver).  Resolving is idempotent for a path
  (\<open>resolve_idempotent\<close>), the first occurrence of a basename is used verbatim
  (\<open>resolve_first_verbatim\<close>) and later occurrences get the folder suffix and, if
  needed, a number (\<open>resolve_later_suffixed\<close>); but the ids are not unique.  The
  first-occurrence branch does not look at the ids in use: with \<open>a/x.md\<close> and
  \<open>b/x.md\<close> resolved to \<open>x\<close> and \<open>x (b)\<close>, the new note \<open>c/x (b).md\<close> has the
  basename \<open>x (b)\<close>, seen for the first time, and gets the id \<open>x (b)\<close> as well: two
  live paths share an id, and the reverse map forgets \<open>b/x.md\<close>.
\<close>

theorem generateUniqueNodeId_collision:
  "map_of (pathToUniqueId two_notes) ''b/x.md'' = Some ''x (b)''
   \<and> map_of (pathToUniqueId two_notes) ''c/x (b).md'' = None
   \<and> fst (generateUniqueNodeId two_notes ''x (b)'' ''c/x (b).md'') = ''x (b)''
   \<and> map_of (pathToUniqueId three_notes) ''b/x.md'' = Some ''x (b)''
   \<and> map_of (pathToUniqueId three_notes) ''c/x (b).md'' = Some ''x (b)''
   \<and> map_of (uniqueIdToPath three_notes) ''x (b)'' = Some ''c/x (b).md''"
  by (simp add: three_notes_def two_notes_eq generateUniqueNodeId_def Let_def)

end
